theory Spec2Isabelle
  imports Complex_Main "HOL-Library.AList"
begin

section \<open>Python values and the built-ins the program relies on\<close>

text \<open>
  The two modules \<^verbatim>\<open>core/action.py\<close> and \<^verbatim>\<open>core/job_run_condition.py\<close> receive
  data that was read from a profile file, so every argument is a JSON-shaped Python value.
  Modelling decisions, all of them about the language and none about the program:
  \<^item> a string is a list of 8-bit characters read as the code points 0..255;
  \<^item> a dictionary is an association list in insertion order with string keys; a lookup
    takes the first entry of a key and \<^verbatim>\<open>d[k] = v\<close> overwrites it in place or appends;
  \<^item> a finite float is kept as sign, decimal mantissa and decimal exponent (the digits
    that \<^verbatim>\<open>repr\<close> prints); binary rounding is not modelled, conversions are exact, and
    the only range effect kept is the overflow of \<^verbatim>\<open>float()\<close> at \<open>2^1024 - 2^970\<close>
    (an OverflowError for an int, an infinity for a literal);
  \<^item> integers are unbounded and the interpreter's optional limit on the number of
    digits of an int/str conversion is switched off;
  \<^item> logging is not modelled.
\<close>

datatype error =
    ValueError | TypeError | OverflowError | AttributeError | RuntimeError
  | OtherException string
  | NonException string

text \<open>\<^verbatim>\<open>except Exception\<close> catches every error but the ones that derive from
  BaseException only (KeyboardInterrupt, SystemExit).\<close>

fun is_Exception :: "error \<Rightarrow> bool" where
  "is_Exception (NonException _) = False"
| "is_Exception _ = True"

text \<open>\<^verbatim>\<open>except (ValueError, TypeError)\<close>\<close>

fun is_Value_or_Type :: "error \<Rightarrow> bool" where
  "is_Value_or_Type ValueError = True"
| "is_Value_or_Type TypeError = True"
| "is_Value_or_Type _ = False"

datatype pyfloat = FFin bool nat int | FInf bool | FNaN

datatype pyval =
    PNone
  | PBool bool
  | PInt int
  | PFloat pyfloat
  | PStr string
  | PList "pyval list"
  | PDict "(string \<times> pyval) list"

type_synonym pydict = "(string \<times> pyval) list"

definition dict_get :: "pydict \<Rightarrow> string \<Rightarrow> pyval \<Rightarrow> pyval" where
  "dict_get d k dflt = (case map_of d k of None \<Rightarrow> dflt | Some v \<Rightarrow> v)"

definition dict_set :: "pydict \<Rightarrow> string \<Rightarrow> pyval \<Rightarrow> pydict" where
  "dict_set d k v = AList.update k v d"

fun is_dict :: "pyval \<Rightarrow> bool" where
  "is_dict (PDict _) = True"
| "is_dict _ = False"

fun is_str :: "pyval \<Rightarrow> bool" where
  "is_str (PStr _) = True"
| "is_str _ = False"

subsection \<open>Characters and strings\<close>

text \<open>\<^verbatim>\<open>str.strip()\<close> removes the characters for which \<^verbatim>\<open>str.isspace()\<close> holds.\<close>

definition is_space :: "char \<Rightarrow> bool" where
  "is_space c = (c \<in> set [CHR 0x09, CHR 0x0A, CHR 0x0B, CHR 0x0C, CHR 0x0D,
     CHR 0x1C, CHR 0x1D, CHR 0x1E, CHR 0x1F, CHR 0x20, CHR 0x85, CHR 0xA0])"

text \<open>\<^verbatim>\<open>int()\<close> and \<^verbatim>\<open>float()\<close> skip a smaller set around a literal: the ASCII
  separators 0x1C..0x1F are not skipped.\<close>

definition is_num_space :: "char \<Rightarrow> bool" where
  "is_num_space c = (c \<in> set [CHR 0x09, CHR 0x0A, CHR 0x0B, CHR 0x0C, CHR 0x0D,
     CHR 0x20, CHR 0x85, CHR 0xA0])"

definition strip_with :: "(char \<Rightarrow> bool) \<Rightarrow> string \<Rightarrow> string" where
  "strip_with P s = rev (dropWhile P (rev (dropWhile P s)))"

definition py_strip :: "string \<Rightarrow> string" where
  "py_strip s = strip_with is_space s"

definition is_upper :: "char \<Rightarrow> bool" where
  "is_upper c = (let n = (of_char c :: nat) in (65 \<le> n \<and> n \<le> 90) \<or> (192 \<le> n \<and> n \<le> 222 \<and> n \<noteq> 215))"

definition lower_char :: "char \<Rightarrow> char" where
  "lower_char c = (if is_upper c then char_of ((of_char c :: nat) + 32) else c)"

definition py_lower :: "string \<Rightarrow> string" where
  "py_lower s = map lower_char s"

definition is_digit :: "char \<Rightarrow> bool" where
  "is_digit c = (let n = (of_char c :: nat) in 48 \<le> n \<and> n \<le> 57)"

definition digit_val :: "char \<Rightarrow> nat" where
  "digit_val c = of_char c - 48"

definition digit_char :: "nat \<Rightarrow> char" where
  "digit_char d = char_of (48 + d)"

fun digits :: "nat \<Rightarrow> string" where
  "digits n = (if n < 10 then [digit_char n] else digits (n div 10) @ [digit_char (n mod 10)])"

declare digits.simps [simp del]

definition digits_value :: "string \<Rightarrow> nat" where
  "digits_value ds = foldl (\<lambda>acc c. 10 * acc + digit_val c) 0 ds"

text \<open>\<^verbatim>\<open>str(n)\<close> for an int.\<close>

definition str_of_int :: "int \<Rightarrow> string" where
  "str_of_int n = (if n < 0 then CHR ''-'' # digits (nat (- n)) else digits (nat n))"

text \<open>A group of digits of a numeric literal: digits, with single underscores between
  digits only.\<close>

fun digitpart :: "string \<Rightarrow> bool" where
  "digitpart [] = False"
| "digitpart [c] = is_digit c"
| "digitpart (c # d # cs) =
     (is_digit c \<and> (if d = CHR ''_'' then digitpart cs else digitpart (d # cs)))"

definition digitpart_value :: "string \<Rightarrow> nat" where
  "digitpart_value s = digits_value (filter (\<lambda>c. c \<noteq> CHR ''_'') s)"

definition split_sign :: "string \<Rightarrow> bool \<times> string" where
  "split_sign s = (case s of
      [] \<Rightarrow> (False, [])
    | c # r \<Rightarrow> if c = CHR ''-'' then (True, r) else if c = CHR ''+'' then (False, r) else (False, s))"

text \<open>\<^verbatim>\<open>int(s)\<close> for a string, base 10: None stands for ValueError.\<close>

definition int_of_str :: "string \<Rightarrow> int option" where
  "int_of_str s =
     (case split_sign (strip_with is_num_space s) of
        (neg, r) \<Rightarrow>
          if digitpart r
          then Some (if neg then - int (digitpart_value r) else int (digitpart_value r))
          else None)"

text \<open>A character that no integer literal holds: neither skipped white space, nor a
  digit, an underscore or a sign.\<close>

definition bad_int_char :: "char \<Rightarrow> bool" where
  "bad_int_char c = (\<not> is_num_space c \<and> \<not> is_digit c \<and> c \<noteq> CHR ''_'' \<and> c \<noteq> CHR ''-'' \<and> c \<noteq> CHR ''+'')"

subsection \<open>Floats\<close>

text \<open>The canonical form: the mantissa carries no trailing zero; zero is mantissa 0,
  exponent 0.\<close>

function norm_mant :: "nat \<Rightarrow> int \<Rightarrow> nat \<times> int" where
  "norm_mant m e =
     (if m = 0 then (0, 0)
      else if m mod 10 = 0 then norm_mant (m div 10) (e + 1)
      else (m, e))"
  by pat_completeness auto
termination
  by (relation "measure (\<lambda>(m, e). m)") auto

declare norm_mant.simps [simp del]

definition mk_float :: "bool \<Rightarrow> nat \<Rightarrow> int \<Rightarrow> pyfloat" where
  "mk_float neg m e = (case norm_mant m e of (m', e') \<Rightarrow> FFin neg m' e')"

definition float_zero :: pyfloat where
  "float_zero = FFin False 0 0"

text \<open>The value of a finite float, times \<open>10 ^ (- e0)\<close> for an \<open>e0\<close> not above its
  exponent: an integer, so that comparisons stay in the integers.\<close>

definition fin_scaled :: "int \<Rightarrow> bool \<Rightarrow> nat \<Rightarrow> int \<Rightarrow> int" where
  "fin_scaled e0 neg m e = (if neg then - 1 else 1) * int m * 10 ^ nat (e - e0)"

fun float_lt :: "pyfloat \<Rightarrow> pyfloat \<Rightarrow> bool" where
  "float_lt FNaN _ = False"
| "float_lt _ FNaN = False"
| "float_lt (FInf a) (FInf b) = (a \<and> \<not> b)"
| "float_lt (FInf a) (FFin _ _ _) = a"
| "float_lt (FFin _ _ _) (FInf b) = (\<not> b)"
| "float_lt (FFin s1 m1 e1) (FFin s2 m2 e2) =
     (fin_scaled (min e1 e2) s1 m1 e1 < fin_scaled (min e1 e2) s2 m2 e2)"

fun float_eq :: "pyfloat \<Rightarrow> pyfloat \<Rightarrow> bool" where
  "float_eq FNaN _ = False"
| "float_eq _ FNaN = False"
| "float_eq (FInf a) (FInf b) = (a = b)"
| "float_eq (FInf a) (FFin _ _ _) = False"
| "float_eq (FFin _ _ _) (FInf b) = False"
| "float_eq (FFin s1 m1 e1) (FFin s2 m2 e2) =
     (fin_scaled (min e1 e2) s1 m1 e1 = fin_scaled (min e1 e2) s2 m2 e2)"

definition float_le :: "pyfloat \<Rightarrow> pyfloat \<Rightarrow> bool" where
  "float_le a b = (float_lt a b \<or> float_eq a b)"

text \<open>\<^verbatim>\<open>max(a, b)\<close> of two floats: the first argument unless the second is greater.\<close>

definition float_max :: "pyfloat \<Rightarrow> pyfloat \<Rightarrow> pyfloat" where
  "float_max a b = (if float_lt a b then b else a)"


text \<open>The number that a finite float stands for: the figure against which the
  integer comparisons above and the subtraction are checked below. It is 0 for the
  infinities and NaN, where no statement reads it.\<close>

definition float_val :: "pyfloat \<Rightarrow> rat" where
  "float_val f =
     (case f of
        FFin neg m e \<Rightarrow> (if neg then - 1 else 1) * of_nat m * 10 powi e
      | _ \<Rightarrow> 0)"

text \<open>\<^verbatim>\<open>repr\<close> of a float, after CPython's \<^verbatim>\<open>format_float_short\<close> in mode \<^verbatim>\<open>'r'\<close>:
  the digits \<open>ds\<close> and the position \<open>decpt\<close> of the decimal point relative to them.\<close>

definition exp_str :: "int \<Rightarrow> string" where
  "exp_str x =
     (if x < 0 then ''-'' else ''+'') @
     (let d = digits (nat \<bar>x\<bar>) in if length d < 2 then CHR ''0'' # d else d)"

definition format_float_short :: "string \<Rightarrow> int \<Rightarrow> string" where
  "format_float_short ds decpt =
     (let n = int (length ds) in
      if decpt \<le> - 4 \<or> decpt > 16 then
        take 1 ds @ (if n > 1 then CHR ''.'' # drop 1 ds else []) @ CHR ''e'' # exp_str (decpt - 1)
      else if decpt \<le> 0 then
        ''0.'' @ replicate (nat (- decpt)) CHR ''0'' @ ds
      else if decpt \<ge> n then
        ds @ replicate (nat (decpt - n)) CHR ''0'' @ ''.0''
      else
        take (nat decpt) ds @ CHR ''.'' # drop (nat decpt) ds)"

fun float_repr :: "pyfloat \<Rightarrow> string" where
  "float_repr FNaN = ''nan''"
| "float_repr (FInf neg) = (if neg then ''-inf'' else ''inf'')"
| "float_repr (FFin neg m e) =
     (if neg then ''-'' else '''') @
     (case norm_mant m e of
        (m', e') \<Rightarrow>
          if m' = 0 then format_float_short ''0'' 1
          else format_float_short (digits m') (int (length (digits m')) + e'))"

text \<open>\<^verbatim>\<open>int(f)\<close> of a float: truncation towards zero.\<close>

fun int_of_float :: "pyfloat \<Rightarrow> error + int" where
  "int_of_float FNaN = Inl ValueError"
| "int_of_float (FInf _) = Inl OverflowError"
| "int_of_float (FFin neg m e) =
     Inr ((if neg then - 1 else 1) *
          (if e \<ge> 0 then int m * 10 ^ nat e else int (m div 10 ^ nat (- e))))"

text \<open>\<^verbatim>\<open>float(n)\<close> of an int.\<close>

definition float_overflow_bound :: int where
  "float_overflow_bound = 2 ^ 1024 - 2 ^ 970"

definition float_of_int :: "int \<Rightarrow> error + pyfloat" where
  "float_of_int n =
     (if \<bar>n\<bar> \<ge> float_overflow_bound then Inl OverflowError
      else Inr (mk_float (n < 0) (nat \<bar>n\<bar>) 0))"

text \<open>\<^verbatim>\<open>float(s)\<close> of a string: None stands for ValueError. The literal is
  \<^verbatim>\<open>[sign] (inf | infinity | nan | number [exponent])\<close> with
  \<^verbatim>\<open>number ::= [digitpart] "." digitpart | digitpart ["."]\<close>.\<close>

definition is_exp_char :: "char \<Rightarrow> bool" where
  "is_exp_char c = (c = CHR ''e'' \<or> c = CHR ''E'')"

definition number_ok :: "string \<Rightarrow> bool" where
  "number_ok s =
     (let ip = takeWhile (\<lambda>c. c \<noteq> CHR ''.'') s; r = dropWhile (\<lambda>c. c \<noteq> CHR ''.'') s
      in if r = [] then digitpart ip
         else (ip = [] \<and> digitpart (tl r)) \<or> (digitpart ip \<and> (tl r = [] \<or> digitpart (tl r))))"

definition float_of_number :: "bool \<Rightarrow> string \<Rightarrow> pyfloat option" where
  "float_of_number neg s =
     (let ms = takeWhile (\<lambda>c. \<not> is_exp_char c) s;
          es = dropWhile (\<lambda>c. \<not> is_exp_char c) s;
          ip = filter (\<lambda>c. c \<noteq> CHR ''_'') (takeWhile (\<lambda>c. c \<noteq> CHR ''.'') ms);
          fp = filter (\<lambda>c. c \<noteq> CHR ''_'') (drop 1 (dropWhile (\<lambda>c. c \<noteq> CHR ''.'') ms));
          m = digits_value (ip @ fp)
      in if \<not> number_ok ms then None
         else if es = [] then Some (mk_float neg m (- int (length fp)))
         else (case split_sign (tl es) of
                 (eneg, ed) \<Rightarrow>
                   if digitpart ed
                   then Some (mk_float neg m
                          ((if eneg then - int (digitpart_value ed) else int (digitpart_value ed))
                           - int (length fp)))
                   else None))"

text \<open>A literal whose magnitude reaches the overflow bound reads as an infinity.\<close>

fun float_overflows :: "pyfloat \<Rightarrow> bool" where
  "float_overflows (FFin neg m e) =
     (if e \<ge> 0 then int m * 10 ^ nat e \<ge> float_overflow_bound
      else int m \<ge> float_overflow_bound * 10 ^ nat (- e))"
| "float_overflows _ = False"

definition float_of_str :: "string \<Rightarrow> pyfloat option" where
  "float_of_str s =
     (case split_sign (strip_with is_num_space s) of
        (neg, r) \<Rightarrow>
          if py_lower r = ''inf'' \<or> py_lower r = ''infinity'' then Some (FInf neg)
          else if py_lower r = ''nan'' then Some FNaN
          else (case float_of_number neg r of
                  None \<Rightarrow> None
                | Some f \<Rightarrow> if float_overflows f then Some (FInf neg) else Some f))"

subsection \<open>Conversions of arbitrary values\<close>

text \<open>\<^verbatim>\<open>repr\<close> of a string: the quote, and the escapes of the characters that are not
  printable.\<close>

definition hex_digit :: "nat \<Rightarrow> char" where
  "hex_digit d = (if d < 10 then char_of (48 + d) else char_of (87 + d))"

definition is_printable :: "char \<Rightarrow> bool" where
  "is_printable c = (let n = (of_char c :: nat) in (32 \<le> n \<and> n \<le> 126) \<or> (161 \<le> n \<and> n \<noteq> 173))"

definition escape_char :: "char \<Rightarrow> char \<Rightarrow> string" where
  "escape_char q c =
     (if c = q \<or> c = CHR 0x5C then [CHR 0x5C, c]
      else if c = CHR 0x09 then [CHR 0x5C, CHR ''t'']
      else if c = CHR 0x0A then [CHR 0x5C, CHR ''n'']
      else if c = CHR 0x0D then [CHR 0x5C, CHR ''r'']
      else if is_printable c then [c]
      else [CHR 0x5C, CHR ''x'', hex_digit ((of_char c :: nat) div 16), hex_digit ((of_char c :: nat) mod 16)])"

definition str_repr :: "string \<Rightarrow> string" where
  "str_repr s =
     (let q = (if CHR 0x27 \<in> set s \<and> CHR 0x22 \<notin> set s then CHR 0x22 else CHR 0x27)
      in q # concat (map (escape_char q) s) @ [q])"

fun join :: "string \<Rightarrow> string list \<Rightarrow> string" where
  "join sep [] = []"
| "join sep [x] = x"
| "join sep (x # y # ys) = x @ sep @ join sep (y # ys)"

function py_repr :: "pyval \<Rightarrow> string" where
  "py_repr PNone = ''None''"
| "py_repr (PBool b) = (if b then ''True'' else ''False'')"
| "py_repr (PInt n) = str_of_int n"
| "py_repr (PFloat f) = float_repr f"
| "py_repr (PStr s) = str_repr s"
| "py_repr (PList xs) = CHR ''['' # join '', '' (map py_repr xs) @ '']''"
| "py_repr (PDict kvs) =
     CHR ''{'' # join '', '' (map (\<lambda>kv. str_repr (fst kv) @ '': '' @ py_repr (snd kv)) kvs) @ ''}''"
  by pat_completeness auto

lemma size_dict_entry: "(a, b) \<in> set kvs \<Longrightarrow> size b < Suc (size_list (size_prod (\<lambda>x. 0) size) kvs)"
  by (induction kvs) auto

lemma size_list_entry: "x \<in> set xs \<Longrightarrow> size x < Suc (size_list size xs)"
  by (induction xs) auto

termination py_repr
  by (relation "measure size") (auto dest: size_dict_entry size_list_entry)

text \<open>\<^verbatim>\<open>str(v)\<close>, also what an f-string prints.\<close>

definition py_str :: "pyval \<Rightarrow> string" where
  "py_str v = (case v of PStr s \<Rightarrow> s | _ \<Rightarrow> py_repr v)"

text \<open>\<^verbatim>\<open>bool(v)\<close>: the truth value of a value.\<close>

fun py_bool :: "pyval \<Rightarrow> bool" where
  "py_bool PNone = False"
| "py_bool (PBool b) = b"
| "py_bool (PInt n) = (n \<noteq> 0)"
| "py_bool (PFloat f) = (\<not> float_eq f float_zero)"
| "py_bool (PStr s) = (s \<noteq> [])"
| "py_bool (PList xs) = (xs \<noteq> [])"
| "py_bool (PDict d) = (d \<noteq> [])"

text \<open>\<^verbatim>\<open>int(v)\<close>\<close>

fun py_int :: "pyval \<Rightarrow> error + int" where
  "py_int (PInt n) = Inr n"
| "py_int (PBool b) = Inr (if b then 1 else 0)"
| "py_int (PFloat f) = int_of_float f"
| "py_int (PStr s) = (case int_of_str s of None \<Rightarrow> Inl ValueError | Some n \<Rightarrow> Inr n)"
| "py_int _ = Inl TypeError"

text \<open>\<^verbatim>\<open>float(v)\<close>\<close>

fun py_float :: "pyval \<Rightarrow> error + pyfloat" where
  "py_float (PFloat f) = Inr f"
| "py_float (PInt n) = float_of_int n"
| "py_float (PBool b) = Inr (if b then FFin False 1 0 else float_zero)"
| "py_float (PStr s) = (case float_of_str s of None \<Rightarrow> Inl ValueError | Some f \<Rightarrow> Inr f)"
| "py_float _ = Inl TypeError"

section \<open>Job run conditions (core/job\_run\_condition.py)\<close>


text \<open>An instance of one of the three concrete subclasses of JobRunCondition, with its
  \<^verbatim>\<open>params\<close> and the attribute its constructor computes. The \<^verbatim>\<open>type\<close> attribute is
  the class constant \<^verbatim>\<open>TYPE\<close>.\<close>

datatype run_condition =
    InfiniteRunCondition (rc_params: pydict)
  | CountRunCondition (rc_params: pydict) (target_count: int)
  | TimeRunCondition (rc_params: pydict) (duration_seconds: pyfloat)

fun rc_type :: "run_condition \<Rightarrow> string" where
  "rc_type (InfiniteRunCondition _) = ''infinite''"
| "rc_type (CountRunCondition _ _) = ''count''"
| "rc_type (TimeRunCondition _ _) = ''time''"




definition float_tenth :: pyfloat where
  "float_tenth = FFin False 1 (- 1)"

definition float_sixty :: pyfloat where
  "float_sixty = FFin False 6 1"




definition rc_to_dict :: "run_condition \<Rightarrow> pyval" where
  "rc_to_dict c = PDict [(''type'', PStr (rc_type c)), (''params'', PDict (rc_params c))]"


section \<open>Actions (core/action.py)\<close>

subsection \<open>The data of an action\<close>

datatype action_class =
    ClickAction | PressKeyAction | MoveMouseAction | DragAction | WaitAction
  | KeyDownAction | KeyUpAction | TextEntryAction | ModifiedKeyStrokeAction

text \<open>The class constant \<^verbatim>\<open>TYPE\<close> of each subclass.\<close>

fun TYPE_of :: "action_class \<Rightarrow> string" where
  "TYPE_of ClickAction = ''click''"
| "TYPE_of PressKeyAction = ''press_key''"
| "TYPE_of MoveMouseAction = ''move_mouse''"
| "TYPE_of DragAction = ''drag''"
| "TYPE_of WaitAction = ''wait''"
| "TYPE_of KeyDownAction = ''key_down''"
| "TYPE_of KeyUpAction = ''key_up''"
| "TYPE_of TextEntryAction = ''text_entry''"
| "TYPE_of ModifiedKeyStrokeAction = ''modified_key_stroke''"

text \<open>What a condition manager hands out: an object with a truth value, that is or is
  not an instance of \<^verbatim>\<open>Condition\<close>, with or without an attribute \<^verbatim>\<open>id\<close>, and whose
  \<^verbatim>\<open>check(**context)\<close> returns a bool or raises. An instance of \<^verbatim>\<open>Condition\<close> is taken
  to have the attributes \<^verbatim>\<open>name\<close> and \<^verbatim>\<open>type\<close> that the log messages of
  \<^verbatim>\<open>execute\<close> read, as the class declares them (\<^verbatim>\<open>core/condition.py\<close> is not
  part of the sources at hand; the stand-in class of \<^verbatim>\<open>action.py\<close> sets both).\<close>

record cond_obj =
  obj_truthy :: bool
  obj_is_Condition :: bool
  obj_id :: "pyval option"
  obj_check :: "pydict \<Rightarrow> error + bool"

text \<open>An instance of a subclass of \<^verbatim>\<open>Action\<close>. \<open>attrs\<close> holds the attributes that the
  subclass constructor sets (\<^verbatim>\<open>x\<close>, \<^verbatim>\<open>button\<close>, \<^verbatim>\<open>delay_before\<close>, ...);
  \<open>validation_error\<close> is \<^verbatim>\<open>str(e)\<close> of a caught exception (kept as the exception) or
  a literal message.\<close>

record action =
  cls :: action_class
  type :: string
  params :: pydict
  condition_id :: "string option"
  condition_instance_cache :: "cond_obj option"
  next_action_index_if_condition_met :: "int option"
  next_action_index_if_condition_not_met :: "int option"
  is_absolute :: bool
  fallback_action_sequence :: "pyval list option"
  is_valid :: bool
  validation_error :: "(error + string) option"
  attrs :: pydict

subsection \<open>Action.\_\_init\_\_\<close>

text \<open>The condition id: a string that is not blank, stripped.\<close>

definition init_condition_id :: "pyval \<Rightarrow> string option" where
  "init_condition_id v =
     (case v of
        PStr s \<Rightarrow> if py_strip s \<noteq> [] then Some (py_strip s) else None
      | _ \<Rightarrow> None)"

text \<open>A jump index, as the two \<^verbatim>\<open>try\<close> blocks of the constructor compute it: the
  string of the value (empty for None), \<^verbatim>\<open>int()\<close> of it unless it is blank, and
  \<^verbatim>\<open>max(0, n)\<close> of the integer; None when \<^verbatim>\<open>int()\<close> raises.\<close>

definition init_jump_index :: "pyval \<Rightarrow> int option" where
  "init_jump_index v =
     (let s = (if v \<noteq> PNone then py_str v else [])
      in if py_strip s \<noteq> []
         then (case int_of_str s of Some n \<Rightarrow> Some (max 0 n) | None \<Rightarrow> None)
         else None)"

text \<open>The fallback sequence: the entries that are dicts with a true \<^verbatim>\<open>type\<close>, and
  None when none is left.\<close>

fun valid_fallback :: "pyval \<Rightarrow> bool" where
  "valid_fallback (PDict d) = py_bool (dict_get d ''type'' PNone)"
| "valid_fallback _ = False"

definition init_fallback :: "pyval \<Rightarrow> pyval list option" where
  "init_fallback v =
     (case v of
        PList xs \<Rightarrow> if filter valid_fallback xs \<noteq> [] then Some (filter valid_fallback xs) else None
      | _ \<Rightarrow> None)"

definition Action_init ::
  "action_class \<Rightarrow> pyval \<Rightarrow> pyval \<Rightarrow> pyval \<Rightarrow> pyval \<Rightarrow> pyval \<Rightarrow> pyval \<Rightarrow> pyval \<Rightarrow> error + action" where
  "Action_init c ty ps cid met not_met absolute fallback =
     (if \<not> is_str ty \<or> \<not> py_bool ty then Inl ValueError
      else Inr \<lparr>cls = c,
                type = py_str ty,
                params = (case ps of PDict d \<Rightarrow> d | _ \<Rightarrow> []),
                condition_id = init_condition_id cid,
                condition_instance_cache = None,
                next_action_index_if_condition_met = init_jump_index met,
                next_action_index_if_condition_not_met = init_jump_index not_met,
                is_absolute = py_bool absolute,
                fallback_action_sequence = init_fallback fallback,
                is_valid = True,
                validation_error = None,
                attrs = []\<rparr>)"

text \<open>\<^verbatim>\<open>Action\<close> derives from \<^verbatim>\<open>ABC\<close> and declares \<^verbatim>\<open>_execute_core_logic\<close> with
  \<^verbatim>\<open>@abstractmethod\<close>, so the call \<^verbatim>\<open>Action(...)\<close> itself raises TypeError ("Can't
  instantiate abstract class Action") before \<^verbatim>\<open>__init__\<close> runs, whatever the
  arguments are.\<close>

definition Action_new ::
  "pyval \<Rightarrow> pyval \<Rightarrow> pyval \<Rightarrow> pyval \<Rightarrow> pyval \<Rightarrow> pyval \<Rightarrow> pyval \<Rightarrow> error + action" where
  "Action_new ty ps cid met not_met absolute fallback = Inl TypeError"

subsection \<open>The constructors of the subclasses\<close>

text \<open>The body of a constructor's \<^verbatim>\<open>try\<close> block is a sequence of statements on
  \<^verbatim>\<open>self\<close>; each goes on to the next, raises, or returns.\<close>

datatype ctl = Next | Raise error | Return

type_synonym step = "action \<Rightarrow> ctl \<times> action"

fun run_steps :: "step list \<Rightarrow> action \<Rightarrow> ctl \<times> action" where
  "run_steps [] a = (Next, a)"
| "run_steps (s # ss) a = (case s a of (Next, a') \<Rightarrow> run_steps ss a' | r \<Rightarrow> r)"

definition set_attr :: "string \<Rightarrow> pyval \<Rightarrow> action \<Rightarrow> action" where
  "set_attr k v a = a\<lparr>attrs := dict_set (attrs a) k v\<rparr>"

definition set_param :: "string \<Rightarrow> pyval \<Rightarrow> action \<Rightarrow> action" where
  "set_param k v a = a\<lparr>params := dict_set (params a) k v\<rparr>"

text \<open>\<^verbatim>\<open>self.attr = int(self.params.get(k, d))\<close>\<close>

definition int_attr :: "string \<Rightarrow> string \<Rightarrow> pyval \<Rightarrow> step" where
  "int_attr attr k d a =
     (case py_int (dict_get (params a) k d) of
        Inl e \<Rightarrow> (Raise e, a)
      | Inr n \<Rightarrow> (Next, set_attr attr (PInt n) a))"

text \<open>\<^verbatim>\<open>self.attr = str(self.params.get(k, d)).lower()\<close>, then
  \<^verbatim>\<open>if self.attr not in choices: self.attr = d; self.params[k] = d\<close>\<close>

definition choice_attr :: "string \<Rightarrow> string \<Rightarrow> string \<Rightarrow> string list \<Rightarrow> step" where
  "choice_attr attr k d choices a =
     (let v = py_lower (py_str (dict_get (params a) k (PStr d)))
      in if v \<in> set choices then (Next, set_attr attr (PStr v) a)
         else (Next, set_param k (PStr d) (set_attr attr (PStr d) a)))"

text \<open>\<^verbatim>\<open>self.attr = float(self.params.get(k, d)); self.attr = max(0.0, self.attr);
  self.params[k] = self.attr\<close>\<close>

definition nonneg_float_attr :: "string \<Rightarrow> string \<Rightarrow> pyfloat \<Rightarrow> step" where
  "nonneg_float_attr attr k d a =
     (case py_float (dict_get (params a) k (PFloat d)) of
        Inl e \<Rightarrow> (Raise e, a)
      | Inr f \<Rightarrow>
          (Next, set_param k (PFloat (float_max float_zero f))
                   (set_attr attr (PFloat (float_max float_zero f)) a)))"

text \<open>\<^verbatim>\<open>self.attr = str(self.params.get(k, d))\<close>\<close>

definition str_attr :: "string \<Rightarrow> string \<Rightarrow> string \<Rightarrow> step" where
  "str_attr attr k d a = (Next, set_attr attr (PStr (py_str (dict_get (params a) k (PStr d)))) a)"

text \<open>\<^verbatim>\<open>if not self.a1 or not self.a2: self._is_valid = False;
  self._validation_error = msg; return\<close>\<close>

definition require_nonempty :: "string list \<Rightarrow> string \<Rightarrow> step" where
  "require_nonempty ats msg a =
     (if list_ex (\<lambda>attr. \<not> py_bool (dict_get (attrs a) attr PNone)) ats
      then (Return, a\<lparr>is_valid := False, validation_error := Some (Inr msg)\<rparr>)
      else (Next, a))"

definition float_one :: pyfloat where
  "float_one = FFin False 1 0"

fun class_steps :: "action_class \<Rightarrow> step list" where
  "class_steps ClickAction =
     [int_attr ''x'' ''x'' (PInt 0),
      int_attr ''y'' ''y'' (PInt 0),
      choice_attr ''button'' ''button'' ''left'' [''left'', ''right'', ''middle''],
      choice_attr ''click_type'' ''click_type'' ''single'' [''single'', ''double'', ''down'', ''up''],
      nonneg_float_attr ''delay_before'' ''delay_before'' float_zero,
      nonneg_float_attr ''hold_duration'' ''hold_duration'' float_zero]"
| "class_steps PressKeyAction =
     [str_attr ''key_name'' ''key'' [],
      require_nonempty [''key_name''] ''key_name parameter is empty.'',
      nonneg_float_attr ''delay_before'' ''delay_before'' float_zero]"
| "class_steps MoveMouseAction =
     [int_attr ''x'' ''x'' (PInt 0),
      int_attr ''y'' ''y'' (PInt 0),
      nonneg_float_attr ''duration'' ''duration'' float_tenth,
      nonneg_float_attr ''delay_before'' ''delay_before'' float_zero]"
| "class_steps DragAction =
     [int_attr ''start_x'' ''x'' (PInt 0),
      int_attr ''start_y'' ''y'' (PInt 0),
      int_attr ''end_x'' ''swipe_x'' (PInt 0),
      int_attr ''end_y'' ''swipe_y'' (PInt 0),
      choice_attr ''button'' ''button'' ''left'' [''left'', ''right'', ''middle''],
      nonneg_float_attr ''duration'' ''duration'' float_one,
      nonneg_float_attr ''delay_before'' ''delay_before'' float_zero]"
| "class_steps WaitAction =
     [nonneg_float_attr ''duration'' ''duration'' float_one,
      nonneg_float_attr ''delay_before'' ''delay_before'' float_zero]"
| "class_steps KeyDownAction =
     [str_attr ''key_name'' ''key'' [],
      require_nonempty [''key_name''] ''key_name parameter is empty.'',
      nonneg_float_attr ''delay_before'' ''delay_before'' float_zero]"
| "class_steps KeyUpAction =
     [str_attr ''key_name'' ''key'' [],
      require_nonempty [''key_name''] ''key_name parameter is empty.'',
      nonneg_float_attr ''delay_before'' ''delay_before'' float_zero]"
| "class_steps TextEntryAction =
     [str_attr ''text_to_entry'' ''text'' [],
      nonneg_float_attr ''delay_before'' ''delay_before'' float_zero]"
| "class_steps ModifiedKeyStrokeAction =
     [str_attr ''modifier_key'' ''modifier'' [],
      str_attr ''main_key'' ''main_key'' [],
      require_nonempty [''modifier_key'', ''main_key''] ''modifier or main_key parameter is empty.'',
      nonneg_float_attr ''delay_before'' ''delay_before'' float_zero]"

text \<open>The handler of the \<^verbatim>\<open>try\<close> block: Click, MoveMouse, Drag and Wait have
  \<^verbatim>\<open>except (ValueError, TypeError)\<close>, the other five \<^verbatim>\<open>except Exception\<close>.\<close>

fun catches :: "action_class \<Rightarrow> error \<Rightarrow> bool" where
  "catches ClickAction e = is_Value_or_Type e"
| "catches MoveMouseAction e = is_Value_or_Type e"
| "catches DragAction e = is_Value_or_Type e"
| "catches WaitAction e = is_Value_or_Type e"
| "catches _ e = is_Exception e"

text \<open>The end of a subclass constructor: the \<^verbatim>\<open>else\<close> branch sets \<^verbatim>\<open>_is_valid\<close>
  when the block ran to its end, the handler records a caught exception, any other
  exception leaves the constructor, and a \<^verbatim>\<open>return\<close> inside the block skips both.\<close>

definition finish :: "action_class \<Rightarrow> ctl \<times> action \<Rightarrow> error + action" where
  "finish c r =
     (case r of
        (Next, a) \<Rightarrow> Inr (a\<lparr>is_valid := True\<rparr>)
      | (Return, a) \<Rightarrow> Inr a
      | (Raise e, a) \<Rightarrow>
          if catches c e then Inr (a\<lparr>is_valid := False, validation_error := Some (Inl e)\<rparr>)
          else Inl e)"

text \<open>\<^verbatim>\<open>C(params, condition_id, ...)\<close> for a subclass \<open>C\<close>:
  \<^verbatim>\<open>super().__init__(type=self.TYPE, ...)\<close> and then the block of the class.\<close>

definition new_action ::
  "action_class \<Rightarrow> pyval \<Rightarrow> pyval \<Rightarrow> pyval \<Rightarrow> pyval \<Rightarrow> pyval \<Rightarrow> pyval \<Rightarrow> error + action" where
  "new_action c ps cid met not_met absolute fallback =
     (case Action_init c (PStr (TYPE_of c)) ps cid met not_met absolute fallback of
        Inl e \<Rightarrow> Inl e
      | Inr a \<Rightarrow> finish c (run_steps (class_steps c) a))"

subsection \<open>to\_dict, from\_dict and the factory\<close>

definition opt_str :: "string option \<Rightarrow> pyval" where
  "opt_str v = (case v of None \<Rightarrow> PNone | Some s \<Rightarrow> PStr s)"

definition opt_int :: "int option \<Rightarrow> pyval" where
  "opt_int v = (case v of None \<Rightarrow> PNone | Some n \<Rightarrow> PInt n)"

definition opt_list :: "pyval list option \<Rightarrow> pyval" where
  "opt_list v = (case v of None \<Rightarrow> PNone | Some xs \<Rightarrow> PList xs)"

definition to_dict :: "action \<Rightarrow> pyval" where
  "to_dict a =
     PDict [(''type'', PStr (type a)),
            (''params'', PDict (params a)),
            (''condition_id'', opt_str (condition_id a)),
            (''next_action_index_if_condition_met'', opt_int (next_action_index_if_condition_met a)),
            (''next_action_index_if_condition_not_met'', opt_int (next_action_index_if_condition_not_met a)),
            (''is_absolute'', PBool (is_absolute a)),
            (''fallback_action_sequence'', opt_list (fallback_action_sequence a))]"

text \<open>The local helper of \<^verbatim>\<open>from_dict\<close>.\<close>

definition safe_int_or_none :: "pyval \<Rightarrow> int option" where
  "safe_int_or_none v =
     (let val_str = (if v \<noteq> PNone then py_str v else [])
      in if py_strip val_str \<noteq> []
         then (case int_of_str val_str of Some int_val \<Rightarrow> Some (max 0 int_val) | None \<Rightarrow> None)
         else None)"

definition action_class_map :: "string \<Rightarrow> action_class option" where
  "action_class_map t =
     map_of [(TYPE_of ClickAction, ClickAction), (TYPE_of PressKeyAction, PressKeyAction),
             (TYPE_of MoveMouseAction, MoveMouseAction), (TYPE_of DragAction, DragAction),
             (TYPE_of WaitAction, WaitAction), (TYPE_of KeyDownAction, KeyDownAction),
             (TYPE_of KeyUpAction, KeyUpAction), (TYPE_of TextEntryAction, TextEntryAction),
             (TYPE_of ModifiedKeyStrokeAction, ModifiedKeyStrokeAction)] t"

text \<open>\<^verbatim>\<open>Action.from_dict(data)\<close>. A known type calls the subclass inside
  \<^verbatim>\<open>try\<close>: a ValueError is raised again and any other Exception becomes a ValueError.
  An unknown type calls \<^verbatim>\<open>Action(...)\<close> outside of any \<^verbatim>\<open>try\<close>.\<close>

definition from_dict :: "pyval \<Rightarrow> error + action" where
  "from_dict data =
     (case data of
        PDict d \<Rightarrow>
          (let action_type = dict_get d ''type'' PNone;
               params0 = dict_get d ''params'' (PDict []);
               condition_id_data = dict_get d ''condition_id'' PNone;
               next_if_met_data = dict_get d ''next_action_index_if_condition_met'' PNone;
               next_if_not_met_data = dict_get d ''next_action_index_if_condition_not_met'' PNone;
               is_absolute_data = dict_get d ''is_absolute'' (PBool False);
               fallback_action_sequence_data = dict_get d ''fallback_action_sequence'' PNone
           in if \<not> is_str action_type \<or> \<not> py_bool action_type then Inl ValueError
              else
                (let ps = (if is_dict params0 then params0 else PDict []);
                     condition_id_str = opt_str (init_condition_id condition_id_data);
                     next_if_met = opt_int (safe_int_or_none next_if_met_data);
                     next_if_not_met = opt_int (safe_int_or_none next_if_not_met_data);
                     actual_fallback_sequence =
                       (case fallback_action_sequence_data of
                          PList xs \<Rightarrow> if filter is_dict xs \<noteq> [] then PList (filter is_dict xs) else PNone
                        | _ \<Rightarrow> PNone)
                 in case action_class_map (py_str action_type) of
                      Some c \<Rightarrow>
                        (case new_action c ps condition_id_str next_if_met next_if_not_met
                                is_absolute_data actual_fallback_sequence of
                           Inr a \<Rightarrow> Inr a
                         | Inl e \<Rightarrow> if is_Exception e then Inl ValueError else Inl e)
                    | None \<Rightarrow>
                        Action_new action_type ps condition_id_str next_if_met next_if_not_met
                          is_absolute_data actual_fallback_sequence))
      | _ \<Rightarrow> Inl ValueError)"

text \<open>\<^verbatim>\<open>create_action(data)\<close>. Each of its three fallbacks is a call \<^verbatim>\<open>Action(...)\<close>;
  the two inside the handlers are not protected by a further \<^verbatim>\<open>try\<close>.\<close>

definition create_action :: "pyval \<Rightarrow> error + action" where
  "create_action data =
     (case data of
        PDict d \<Rightarrow>
          (case from_dict data of
             Inr a \<Rightarrow> Inr a
           | Inl e \<Rightarrow>
               if e = ValueError then
                 Action_new (PStr (''error_creating_'' @ py_str (dict_get d ''type'' (PStr ''unknown''))))
                   (dict_get d ''params'' (PDict []))
                   (dict_get d ''condition_id'' PNone) PNone PNone
                   (dict_get d ''is_absolute'' (PBool False))
                   (case dict_get d ''fallback_action_sequence'' PNone of PList xs \<Rightarrow> PList xs | _ \<Rightarrow> PNone)
               else if is_Exception e then
                 Action_new (PStr (''unexpected_error_creating_'' @ py_str (dict_get d ''type'' (PStr ''unknown''))))
                   (dict_get d ''params'' (PDict []))
                   (dict_get d ''condition_id'' PNone) PNone PNone
                   (dict_get d ''is_absolute'' (PBool False))
                   (case dict_get d ''fallback_action_sequence'' PNone of PList xs \<Rightarrow> PList xs | _ \<Rightarrow> PNone)
               else Inl e)
      | _ \<Rightarrow> Action_new (PStr ''invalid_data_type_for_factory'') (PDict []) PNone PNone PNone
               (PBool False) PNone)"

subsection \<open>execute\<close>

text \<open>The job stop event is a flag that another thread sets. \<open>set_after = Some n\<close>
  stands for a thread that sets it once this thread has looked at it \<open>n\<close> more times;
  \<^verbatim>\<open>is_set()\<close> and \<^verbatim>\<open>wait(timeout)\<close> both look at it.\<close>

record stop_event =
  is_set :: bool
  set_after :: "nat option"

definition poll :: "stop_event \<Rightarrow> bool \<times> stop_event" where
  "poll e =
     (if is_set e then (True, e)
      else (case set_after e of
              None \<Rightarrow> (False, e)
            | Some 0 \<Rightarrow> (True, e\<lparr>is_set := True, set_after := None\<rparr>)
            | Some (Suc n) \<Rightarrow> (False, e\<lparr>set_after := Some n\<rparr>)))"

text \<open>\<^verbatim>\<open>job_stop_event and job_stop_event.is_set()\<close>\<close>

definition event_is_set :: "stop_event option \<Rightarrow> bool \<times> stop_event option" where
  "event_is_set ev =
     (case ev of
        None \<Rightarrow> (False, None)
      | Some e \<Rightarrow> (case poll e of (b, e') \<Rightarrow> (b, Some e')))"

text \<open>What an execution does to the outside: it sleeps, waits on the event, or calls a
  method of \<^verbatim>\<open>os_interaction_client\<close> with arguments.\<close>

datatype effect = Slept pyfloat | Waited pyfloat | Called string "pyval list"

text \<open>The module state and the collaborators: the two import flags and, for each call
  of the bridge, whether it raises.\<close>

record environment =
  BridgeImported :: bool
  ConditionClassImported :: bool
  bridge_raises :: "string \<Rightarrow> pyval list \<Rightarrow> error option"

text \<open>A condition manager: an object with a truth value that has or has not the method
  \<^verbatim>\<open>get_shared_condition_by_id\<close>, which returns an object or None, or raises.\<close>

record manager =
  mgr_truthy :: bool
  get_shared_condition_by_id :: "(string \<Rightarrow> error + cond_obj option) option"

text \<open>\<^verbatim>\<open>self._condition_instance_cache and self._condition_instance_cache.id ==
  self.condition_id\<close>: the cached object when the test holds, None when it does not,
  AttributeError when the cached object has no \<^verbatim>\<open>id\<close>.\<close>

definition cache_hit :: "action \<Rightarrow> string \<Rightarrow> error + cond_obj option" where
  "cache_hit a cid =
     (case condition_instance_cache a of
        None \<Rightarrow> Inr None
      | Some c \<Rightarrow>
          if \<not> obj_truthy c then Inr None
          else (case obj_id c of
                  None \<Rightarrow> Inl AttributeError
                | Some i \<Rightarrow> if i = PStr cid then Inr (Some c) else Inr None))"

text \<open>The object to check, from the cache or from the manager (which then fills the
  cache), with the action as it is afterwards.\<close>

definition resolve_condition ::
  "action \<Rightarrow> (string \<Rightarrow> error + cond_obj option) \<Rightarrow> string \<Rightarrow> error + (cond_obj option \<times> action)" where
  "resolve_condition a lookup cid =
     (case cache_hit a cid of
        Inl e \<Rightarrow> Inl e
      | Inr (Some c) \<Rightarrow> Inr (Some c, a)
      | Inr None \<Rightarrow>
          (case lookup cid of
             Inl e \<Rightarrow> Inl e
           | Inr r \<Rightarrow> Inr (r, a\<lparr>condition_instance_cache := r\<rparr>)))"

text \<open>\<^verbatim>\<open>if actual_condition_to_check:\<close> and what follows: the result of the check, False
  for a missing object, for one that is not a Condition and for a check that raises an
  Exception.\<close>

definition check_resolved :: "environment \<Rightarrow> cond_obj option \<Rightarrow> pydict \<Rightarrow> error + bool" where
  "check_resolved env r context =
     (case r of
        None \<Rightarrow> Inr False
      | Some c \<Rightarrow>
          if \<not> obj_truthy c then Inr False
          else if \<not> ConditionClassImported env \<or> \<not> obj_is_Condition c then Inr False
          else (case obj_check c context of
                  Inr b \<Rightarrow> Inr b
                | Inl e \<Rightarrow> if is_Exception e then Inr False else Inl e))"

text \<open>The first part of \<^verbatim>\<open>execute\<close>: \<^verbatim>\<open>condition_result\<close> and the action with its
  cache.\<close>

definition condition_result ::
  "environment \<Rightarrow> action \<Rightarrow> manager option \<Rightarrow> pydict \<Rightarrow> (error + bool) \<times> action" where
  "condition_result env a condition_manager context =
     (case condition_id a of
        None \<Rightarrow> (Inr True, a)
      | Some cid \<Rightarrow>
          if cid = [] then (Inr True, a)
          else (case condition_manager of
                  None \<Rightarrow> (Inr False, a)
                | Some m \<Rightarrow>
                    if \<not> mgr_truthy m then (Inr False, a)
                    else (case get_shared_condition_by_id m of
                            None \<Rightarrow> (Inr False, a)
                          | Some lookup \<Rightarrow>
                              (case resolve_condition a lookup cid of
                                 Inl e \<Rightarrow> (Inl e, a)
                               | Inr (r, a') \<Rightarrow> (check_resolved env r context, a')))))"

text \<open>\<^verbatim>\<open>_interruptible_sleep(duration, stop_event)\<close>\<close>

definition interruptible_sleep ::
  "pyfloat \<Rightarrow> stop_event option \<Rightarrow> bool \<times> stop_event option \<times> effect list" where
  "interruptible_sleep duration ev =
     (if float_le duration float_zero then (False, ev, [])
      else (case ev of
              Some e \<Rightarrow> (case poll e of (b, e') \<Rightarrow> (b, Some e', [Waited duration]))
            | None \<Rightarrow> (False, None, [Slept duration])))"

text \<open>The outcome of a core logic: the exception it raises if any, the event afterwards
  and the effects.\<close>

type_synonym core_result = "error option \<times> stop_event option \<times> effect list"

text \<open>\<^verbatim>\<open>Action._execute_core_logic\<close>, which the subclasses but Wait call first.\<close>

definition base_core_logic :: "environment \<Rightarrow> action \<Rightarrow> error option" where
  "base_core_logic env a =
     (if \<not> is_valid a then Some ValueError
      else if \<not> BridgeImported env then Some RuntimeError
      else None)"

text \<open>\<^verbatim>\<open>if self.delay_before > 0: if self._interruptible_sleep(self.delay_before,
  job_stop_event): return\<close>, and then the rest \<open>k\<close>. Reading an attribute that was never
  set raises AttributeError; the attribute is a float whenever the constructor set it.\<close>

definition after_delay ::
  "action \<Rightarrow> stop_event option \<Rightarrow> (stop_event option \<Rightarrow> core_result) \<Rightarrow> core_result" where
  "after_delay a ev k =
     (case map_of (attrs a) ''delay_before'' of
        None \<Rightarrow> (Some AttributeError, ev, [])
      | Some (PFloat d) \<Rightarrow>
          if float_lt float_zero d then
            (case interruptible_sleep d ev of
               (True, ev', fx) \<Rightarrow> (None, ev', fx)
             | (False, ev', fx) \<Rightarrow> (case k ev' of (r, ev'', fx') \<Rightarrow> (r, ev'', fx @ fx')))
          else k ev
      | Some _ \<Rightarrow> (Some TypeError, ev, []))"

text \<open>A call \<^verbatim>\<open>os_interaction_client.name(self.a1, ..., extra...)\<close>: the attributes are
  read first, then the call is made, and it may raise.\<close>

definition attr_values :: "action \<Rightarrow> string list \<Rightarrow> pyval list option" where
  "attr_values a ks =
     (if list_all (\<lambda>k. map_of (attrs a) k \<noteq> None) ks
      then Some (map (\<lambda>k. the (map_of (attrs a) k)) ks)
      else None)"

definition simulate ::
  "environment \<Rightarrow> action \<Rightarrow> string \<Rightarrow> string list \<Rightarrow> pyval list \<Rightarrow> stop_event option \<Rightarrow> core_result" where
  "simulate env a name ks extra ev =
     (case attr_values a ks of
        None \<Rightarrow> (Some AttributeError, ev, [])
      | Some vs \<Rightarrow> (bridge_raises env name (vs @ extra), ev, [Called name (vs @ extra)]))"

text \<open>The core logic of the seven classes that check, delay and make one call.\<close>

definition simple_core_logic ::
  "environment \<Rightarrow> action \<Rightarrow> stop_event option \<Rightarrow> string \<Rightarrow> string list \<Rightarrow> core_result" where
  "simple_core_logic env a ev name ks =
     (case base_core_logic env a of
        Some e \<Rightarrow> (Some e, ev, [])
      | None \<Rightarrow> after_delay a ev (simulate env a name ks []))"

definition float_005 :: pyfloat where
  "float_005 = FFin False 5 (- 2)"

text \<open>Drag: the move to the start is made inside \<^verbatim>\<open>try\<close> with \<^verbatim>\<open>except Exception:
  pass\<close>, the event is looked at, and then the drag itself is made.\<close>

definition drag_core_logic :: "environment \<Rightarrow> action \<Rightarrow> stop_event option \<Rightarrow> core_result" where
  "drag_core_logic env a ev =
     (case base_core_logic env a of
        Some e \<Rightarrow> (Some e, ev, [])
      | None \<Rightarrow>
          after_delay a ev (\<lambda>ev1.
            (case (if BridgeImported env
                   then simulate env a ''simulate_move_mouse'' [''start_x'', ''start_y'']
                          [PFloat float_005] ev1
                   else (None, ev1, [])) of
               (r, ev2, fx) \<Rightarrow>
                 if (case r of Some e \<Rightarrow> \<not> is_Exception e | None \<Rightarrow> False)
                 then (r, ev2, fx)
                 else (case event_is_set ev2 of
                         (True, ev3) \<Rightarrow> (None, ev3, fx)
                       | (False, ev3) \<Rightarrow>
                           if BridgeImported env
                           then (case simulate env a ''simulate_drag''
                                        [''end_x'', ''end_y'', ''button'', ''duration''] [] ev3 of
                                   (r', ev4, fx') \<Rightarrow> (r', ev4, fx @ fx'))
                           else (Some RuntimeError, ev3, fx)))))"

text \<open>Wait: no call of the base method, no call of the bridge.\<close>

definition wait_core_logic :: "action \<Rightarrow> stop_event option \<Rightarrow> core_result" where
  "wait_core_logic a ev =
     (if \<not> is_valid a then (Some ValueError, ev, [])
      else after_delay a ev (\<lambda>ev1.
             (case map_of (attrs a) ''duration'' of
                None \<Rightarrow> (Some AttributeError, ev1, [])
              | Some (PFloat d) \<Rightarrow>
                  if float_le d float_zero then (None, ev1, [])
                  else (case interruptible_sleep d ev1 of (b, ev2, fx) \<Rightarrow> (None, ev2, fx))
              | Some _ \<Rightarrow> (Some TypeError, ev1, []))))"

fun execute_core_logic :: "environment \<Rightarrow> action_class \<Rightarrow> action \<Rightarrow> stop_event option \<Rightarrow> core_result" where
  "execute_core_logic env ClickAction a ev =
     simple_core_logic env a ev ''simulate_click'' [''x'', ''y'', ''button'', ''click_type'', ''hold_duration'']"
| "execute_core_logic env PressKeyAction a ev =
     simple_core_logic env a ev ''simulate_key_press'' [''key_name'']"
| "execute_core_logic env MoveMouseAction a ev =
     simple_core_logic env a ev ''simulate_move_mouse'' [''x'', ''y'', ''duration'']"
| "execute_core_logic env DragAction a ev = drag_core_logic env a ev"
| "execute_core_logic env WaitAction a ev = wait_core_logic a ev"
| "execute_core_logic env KeyDownAction a ev =
     simple_core_logic env a ev ''simulate_key_down'' [''key_name'']"
| "execute_core_logic env KeyUpAction a ev =
     simple_core_logic env a ev ''simulate_key_up'' [''key_name'']"
| "execute_core_logic env TextEntryAction a ev =
     simple_core_logic env a ev ''simulate_text_entry'' [''text_to_entry'']"
| "execute_core_logic env ModifiedKeyStrokeAction a ev =
     simple_core_logic env a ev ''simulate_modified_key_stroke'' [''modifier_key'', ''main_key'']"

text \<open>What \<^verbatim>\<open>execute\<close> returns or raises, the action and the event afterwards, and the
  effects in the order they happened.\<close>

record exec_result =
  outcome :: "error + bool"
  self_after :: action
  event_after :: "stop_event option"
  effects :: "effect list"

text \<open>\<^verbatim>\<open>Action.execute(job_stop_event, condition_manager, **context)\<close>: the condition,
  the return when it is not met, the return when the stop event is set, the core logic
  (whose exception is logged and raised again), and a last look at the event for the
  log.\<close>

definition execute ::
  "environment \<Rightarrow> action \<Rightarrow> stop_event option \<Rightarrow> manager option \<Rightarrow> pydict \<Rightarrow> exec_result" where
  "execute env a job_stop_event condition_manager context =
     (case condition_result env a condition_manager context of
        (Inl e, a') \<Rightarrow>
          \<lparr>outcome = Inl e, self_after = a', event_after = job_stop_event, effects = []\<rparr>
      | (Inr cond, a') \<Rightarrow>
          if \<not> cond then
            \<lparr>outcome = Inr cond, self_after = a', event_after = job_stop_event, effects = []\<rparr>
          else
            (case event_is_set job_stop_event of
               (True, ev1) \<Rightarrow>
                 \<lparr>outcome = Inr cond, self_after = a', event_after = ev1, effects = []\<rparr>
             | (False, ev1) \<Rightarrow>
                 (case execute_core_logic env (cls a') a' ev1 of
                    (Some e, ev2, fx) \<Rightarrow>
                      \<lparr>outcome = Inl e, self_after = a', event_after = ev2, effects = fx\<rparr>
                  | (None, ev2, fx) \<Rightarrow>
                      \<lparr>outcome = Inr cond, self_after = a', event_after = snd (event_is_set ev2),
                        effects = fx\<rparr>)))"

subsection \<open>Auxiliary notions for the proofs\<close>

text \<open>Two states of the object under construction that differ at most in the fields
  that a subclass constructor writes, and a statement that changes no other field.\<close>

definition same_core :: "action \<Rightarrow> action \<Rightarrow> bool" where
  "same_core a a' = (\<exists>p q v w. a' = a\<lparr>params := p, attrs := q, is_valid := v, validation_error := w\<rparr>)"

definition frames :: "step \<Rightarrow> bool" where
  "frames s = (\<forall>a. same_core a (snd (s a)))"

text \<open>A statement that neither reads nor writes \<^verbatim>\<open>is_absolute\<close>.\<close>

definition abs_indep :: "step \<Rightarrow> bool" where
  "abs_indep s = (\<forall>a b. s (a\<lparr>is_absolute := b\<rparr>) = (fst (s a), (snd (s a))\<lparr>is_absolute := b\<rparr>))"

text \<open>A statement of a constructor block that touches \<^verbatim>\<open>self.params\<close> at the keys
  \<open>K\<close> only: it leaves the other keys as they are, and it does the same again, without
  changing the dict, on any dict that agrees at \<open>K\<close> with the one it left.\<close>

definition keyed :: "string list \<Rightarrow> step \<Rightarrow> bool" where
  "keyed K s =
     ((\<forall>a k. k \<notin> set K \<longrightarrow> map_of (params (snd (s a))) k = map_of (params a) k)
      \<and> (\<forall>a P. (\<forall>k \<in> set K. map_of P k = map_of (params (snd (s a))) k)
            \<longrightarrow> s (a\<lparr>params := P\<rparr>) = (fst (s a), (snd (s a))\<lparr>params := P\<rparr>)))"

text \<open>The statements of each class with the keys they touch.\<close>

fun class_keyed_steps :: "action_class \<Rightarrow> (string list \<times> step) list" where
  "class_keyed_steps ClickAction =
     [([''x''], int_attr ''x'' ''x'' (PInt 0)),
      ([''y''], int_attr ''y'' ''y'' (PInt 0)),
      ([''button''], choice_attr ''button'' ''button'' ''left'' [''left'', ''right'', ''middle'']),
      ([''click_type''],
         choice_attr ''click_type'' ''click_type'' ''single'' [''single'', ''double'', ''down'', ''up'']),
      ([''delay_before''], nonneg_float_attr ''delay_before'' ''delay_before'' float_zero),
      ([''hold_duration''], nonneg_float_attr ''hold_duration'' ''hold_duration'' float_zero)]"
| "class_keyed_steps PressKeyAction =
     [([''key''], str_attr ''key_name'' ''key'' []),
      ([], require_nonempty [''key_name''] ''key_name parameter is empty.''),
      ([''delay_before''], nonneg_float_attr ''delay_before'' ''delay_before'' float_zero)]"
| "class_keyed_steps MoveMouseAction =
     [([''x''], int_attr ''x'' ''x'' (PInt 0)),
      ([''y''], int_attr ''y'' ''y'' (PInt 0)),
      ([''duration''], nonneg_float_attr ''duration'' ''duration'' float_tenth),
      ([''delay_before''], nonneg_float_attr ''delay_before'' ''delay_before'' float_zero)]"
| "class_keyed_steps DragAction =
     [([''x''], int_attr ''start_x'' ''x'' (PInt 0)),
      ([''y''], int_attr ''start_y'' ''y'' (PInt 0)),
      ([''swipe_x''], int_attr ''end_x'' ''swipe_x'' (PInt 0)),
      ([''swipe_y''], int_attr ''end_y'' ''swipe_y'' (PInt 0)),
      ([''button''], choice_attr ''button'' ''button'' ''left'' [''left'', ''right'', ''middle'']),
      ([''duration''], nonneg_float_attr ''duration'' ''duration'' float_one),
      ([''delay_before''], nonneg_float_attr ''delay_before'' ''delay_before'' float_zero)]"
| "class_keyed_steps WaitAction =
     [([''duration''], nonneg_float_attr ''duration'' ''duration'' float_one),
      ([''delay_before''], nonneg_float_attr ''delay_before'' ''delay_before'' float_zero)]"
| "class_keyed_steps KeyDownAction =
     [([''key''], str_attr ''key_name'' ''key'' []),
      ([], require_nonempty [''key_name''] ''key_name parameter is empty.''),
      ([''delay_before''], nonneg_float_attr ''delay_before'' ''delay_before'' float_zero)]"
| "class_keyed_steps KeyUpAction =
     [([''key''], str_attr ''key_name'' ''key'' []),
      ([], require_nonempty [''key_name''] ''key_name parameter is empty.''),
      ([''delay_before''], nonneg_float_attr ''delay_before'' ''delay_before'' float_zero)]"
| "class_keyed_steps TextEntryAction =
     [([''text''], str_attr ''text_to_entry'' ''text'' []),
      ([''delay_before''], nonneg_float_attr ''delay_before'' ''delay_before'' float_zero)]"
| "class_keyed_steps ModifiedKeyStrokeAction =
     [([''modifier''], str_attr ''modifier_key'' ''modifier'' []),
      ([''main_key''], str_attr ''main_key'' ''main_key'' []),
      ([], require_nonempty [''modifier_key'', ''main_key''] ''modifier or main_key parameter is empty.''),
      ([''delay_before''], nonneg_float_attr ''delay_before'' ''delay_before'' float_zero)]"

section \<open>Properties of the built-ins\<close>


lemma strip_with_id: 
  assumes "xs \<noteq> []" "\<not> P (hd xs)" "\<not> P (last xs)" 
  shows "strip_with P xs = xs"
proof -
  have a: "dropWhile P xs = xs" using assms by (simp add: dropWhile_eq_self_iff)
  have "hd (rev xs) = last xs" using assms by (simp add: hd_rev)
  then have b: "dropWhile P (rev xs) = rev xs" using assms by (simp add: dropWhile_eq_self_iff)
  show ?thesis by (simp add: strip_with_def a b)
qed

lemma last_dropWhile: "dropWhile P xs \<noteq> [] \<Longrightarrow> last (dropWhile P xs) = last xs"
  by (induction xs) (auto split: if_splits)

lemma strip_with_idem: "strip_with P (strip_with P xs) = strip_with P xs"
proof -
  define ys where "ys = dropWhile P xs"
  define zs where "zs = dropWhile P (rev ys)"
  have t: "strip_with P xs = rev zs" by (simp add: strip_with_def ys_def zs_def)
  show ?thesis
  proof (cases "zs = []")
    case True
    then have e: "strip_with P xs = []" by (simp add: t)
    have "strip_with P [] = []" by (simp add: strip_with_def)
    with e show ?thesis by simp
  next
    case False
    then have ne: "ys \<noteq> []" by (auto simp: zs_def)
    have 1: "\<not> P (hd zs)" using False unfolding zs_def by (rule hd_dropWhile)
    have "last zs = last (rev ys)" using False unfolding zs_def by (rule last_dropWhile)
    also have "\<dots> = hd ys" using ne by (simp add: last_rev)
    finally have 2: "\<not> P (last zs)" using ne hd_dropWhile [of P xs] by (simp add: ys_def)
    have "strip_with P (rev zs) = rev zs"
      using False 1 2 by (intro strip_with_id) (simp_all add: hd_rev last_rev)
    then show ?thesis by (simp add: t)
  qed
qed

lemma mem_dropWhile: "c \<in> set xs \<Longrightarrow> \<not> P c \<Longrightarrow> c \<in> set (dropWhile P xs)"
  by (induction xs) auto

lemma mem_strip_with: "c \<in> set xs \<Longrightarrow> \<not> P c \<Longrightarrow> c \<in> set (strip_with P xs)"
  by (simp add: strip_with_def mem_dropWhile)

lemma strip_with_Nil_iff: "strip_with P xs = [] \<longleftrightarrow> (\<forall>c \<in> set xs. P c)"
proof
  assume "strip_with P xs = []"
  then show "\<forall>c \<in> set xs. P c" using mem_strip_with [of _ xs P] by auto
next
  assume "\<forall>c \<in> set xs. P c"
  then show "strip_with P xs = []" by (auto simp: strip_with_def dest: set_dropWhileD)
qed


lemma digit_char_props: "d < 10 \<Longrightarrow> is_digit (digit_char d) \<and> digit_val (digit_char d) = d"
  by (simp add: is_digit_def digit_val_def digit_char_def)

lemma digits_small: "n < 10 \<Longrightarrow> digits n = [digit_char n]"
  by (subst digits.simps) simp

lemma digits_big: "\<not> n < 10 \<Longrightarrow> digits n = digits (n div 10) @ [digit_char (n mod 10)]"
  by (subst digits.simps) simp

lemma digits_all_digit: "c \<in> set (digits n) \<Longrightarrow> is_digit c"
proof (induction n arbitrary: c rule: digits.induct)
  case (1 n)
  show ?case
  proof (cases "n < 10")
    case True
    with 1(2) show ?thesis by (simp add: digits_small digit_char_props)
  next
    case False
    from 1(2) have "c \<in> set (digits (n div 10)) \<or> c = digit_char (n mod 10)"
      by (auto simp: digits_big [OF False])
    with 1(1) False show ?thesis by (auto simp: digit_char_props)
  qed
qed

lemma digits_nonempty: "digits n \<noteq> []"
  by (cases "n < 10") (simp_all add: digits_small digits_big)

lemma digits_value_append: "digits_value (xs @ [c]) = 10 * digits_value xs + digit_val c"
  by (simp add: digits_value_def)

lemma digits_value_digits: "digits_value (digits n) = n"
proof (induction n rule: digits.induct)
  case (1 n)
  show ?case
  proof (cases "n < 10")
    case True
    then show ?thesis by (simp add: digits_small digits_value_def digit_char_props)
  next
    case False
    with 1 have "digits_value (digits (n div 10)) = n div 10" by simp
    with False show ?thesis
      by (simp add: digits_big digits_value_append digit_char_props)
  qed
qed

lemma is_digit_not_special:
  "is_digit c \<Longrightarrow> \<not> is_num_space c \<and> \<not> is_space c \<and> c \<noteq> CHR ''-'' \<and> c \<noteq> CHR ''+'' \<and> c \<noteq> CHR ''_''"
  by (auto simp: is_digit_def is_num_space_def is_space_def)

lemma digitpart_all_digits: "xs \<noteq> [] \<Longrightarrow> (\<And>c. c \<in> set xs \<Longrightarrow> is_digit c) \<Longrightarrow> digitpart xs"
proof (induction xs rule: digitpart.induct)
  case (3 c d cs)
  have "d \<noteq> CHR ''_''" using 3(4) [of d] is_digit_not_special [of d] by simp
  with 3 show ?case by simp
qed simp_all

lemma digitpart_chars: "digitpart xs \<Longrightarrow> c \<in> set xs \<Longrightarrow> is_digit c \<or> c = CHR ''_''"
  by (induction xs rule: digitpart.induct) (auto split: if_splits)


lemma hd_digits: "is_digit (hd (digits n))" and last_digits: "is_digit (last (digits n))"
  using digits_nonempty [of n] digits_all_digit [of _ n] by simp_all

lemma int_of_str_digits: "int_of_str (digits n) = Some (int n)"
proof -
  have ne: "digits n \<noteq> []" by (rule digits_nonempty)
  have s: "strip_with is_num_space (digits n) = digits n"
    using ne hd_digits [of n] last_digits [of n] is_digit_not_special
    by (intro strip_with_id) auto
  have sg: "split_sign (digits n) = (False, digits n)"
    using ne hd_digits [of n] is_digit_not_special [of "hd (digits n)"]
    by (cases "digits n") (auto simp: split_sign_def)
  have dp: "digitpart (digits n)"
    using ne digits_all_digit by (intro digitpart_all_digits) auto
  have f: "filter (\<lambda>c. c \<noteq> CHR ''_'') (digits n) = digits n"
    using digits_all_digit [of _ n] is_digit_not_special by (auto simp: filter_id_conv)
  show ?thesis
    by (simp add: int_of_str_def s sg dp digitpart_value_def f digits_value_digits)
qed

lemma int_of_str_neg_digits: "int_of_str (CHR ''-'' # digits n) = Some (- int n)"
proof -
  have ne: "digits n \<noteq> []" by (rule digits_nonempty)
  have "\<not> is_num_space CHR ''-''" by (simp add: is_num_space_def)
  then have s: "strip_with is_num_space (CHR ''-'' # digits n) = CHR ''-'' # digits n"
    using ne last_digits [of n] is_digit_not_special
    by (intro strip_with_id) auto
  have dp: "digitpart (digits n)"
    using ne digits_all_digit by (intro digitpart_all_digits) auto
  have f: "filter (\<lambda>c. c \<noteq> CHR ''_'') (digits n) = digits n"
    using digits_all_digit [of _ n] is_digit_not_special by (auto simp: filter_id_conv)
  show ?thesis
    by (simp add: int_of_str_def s split_sign_def dp digitpart_value_def f digits_value_digits)
qed

lemma int_of_str_str_of_int: "int_of_str (str_of_int n) = Some n"
  by (simp add: str_of_int_def int_of_str_digits int_of_str_neg_digits)

lemma str_of_int_not_blank: "py_strip (str_of_int n) \<noteq> []"
proof -
  obtain c where c: "c \<in> set (digits (nat \<bar>n\<bar>))" "is_digit c"
    using digits_nonempty [of "nat \<bar>n\<bar>"] hd_digits [of "nat \<bar>n\<bar>"] hd_in_set by blast
  then have "c \<in> set (str_of_int n)" by (auto simp: str_of_int_def abs_if split: if_splits)
  moreover have "\<not> is_space c" using c is_digit_not_special by blast
  ultimately show ?thesis by (auto simp: py_strip_def strip_with_Nil_iff)
qed

lemma int_of_str_bad_char:
  assumes "c \<in> set s" "bad_int_char c"
  shows "int_of_str s = None"
proof -
  have 1: "c \<in> set (strip_with is_num_space s)"
    using assms by (intro mem_strip_with) (auto simp: bad_int_char_def)
  define t where "t = strip_with is_num_space s"
  obtain neg r where sg: "split_sign t = (neg, r)" by force
  have 2: "c \<in> set r"
    using 1 sg assms(2) unfolding t_def [symmetric]
    by (cases t) (auto simp: split_sign_def bad_int_char_def split: if_splits)
  have "\<not> digitpart r" using digitpart_chars [of r c] 2 assms(2) by (auto simp: bad_int_char_def)
  then show ?thesis using sg by (simp add: int_of_str_def t_def)
qed

subsection \<open>The float operations against exact arithmetic\<close>













lemma float_tenth_val: "float_val float_tenth = 1 / 10"
  by (simp add: float_tenth_def float_val_def)

lemma float_sixty_val: "float_val float_sixty = 60"
  by (simp add: float_sixty_def float_val_def)



section \<open>Properties of the run conditions\<close>























section \<open>Properties of the actions\<close>

lemma bad_chars: "bad_int_char CHR ''.''" "bad_int_char CHR ''e''" "bad_int_char CHR ''n''"
  "bad_int_char CHR ''T''" "bad_int_char CHR ''F''" "bad_int_char CHR ''[''" "bad_int_char CHR ''{''"
  by (simp_all add: bad_int_char_def is_num_space_def is_digit_def)

lemma format_float_short_bad: "CHR ''.'' \<in> set (format_float_short ds p) \<or> CHR ''e'' \<in> set (format_float_short ds p)"
  by (simp add: format_float_short_def Let_def)

lemma float_repr_bad: "\<exists>c \<in> set (float_repr f). bad_int_char c"
proof (cases f)
  case (FFin neg m e)
  obtain m' e' where n: "norm_mant m e = (m', e')" by force
  show ?thesis
    using format_float_short_bad [of "''0''" 1]
      format_float_short_bad [of "digits m'" "int (length (digits m')) + e'"] bad_chars
    by (auto simp: FFin n)
next
  case (FInf neg)
  then show ?thesis using bad_chars(3) by auto
next
  case FNaN
  then show ?thesis using bad_chars(3) by auto
qed

lemma py_str_bad:
  "\<not> (\<exists>n. v = PInt n) \<Longrightarrow> \<not> is_str v \<Longrightarrow> v \<noteq> PNone \<Longrightarrow> \<exists>c \<in> set (py_str v). bad_int_char c"
  using float_repr_bad bad_chars by (cases v) (auto simp: py_str_def)

lemma py_strip_Nil: "py_strip [] = []"
  by (simp add: py_strip_def strip_with_def)

lemma safe_int_or_none_None: "safe_int_or_none PNone = None"
  by (simp add: safe_int_or_none_def py_strip_Nil)

lemma safe_int_or_none_bad:
  "v \<noteq> PNone \<Longrightarrow> c \<in> set (py_str v) \<Longrightarrow> bad_int_char c \<Longrightarrow> safe_int_or_none v = None"
  using int_of_str_bad_char [of c "py_str v"] by (simp add: safe_int_or_none_def Let_def)

lemma safe_int_or_none_not_numeric:
  "\<not> (\<exists>n. v = PInt n) \<Longrightarrow> \<not> is_str v \<Longrightarrow> safe_int_or_none v = None"
proof (cases "v = PNone")
  case True
  then show ?thesis by (simp add: safe_int_or_none_None)
next
  case False
  assume "\<not> (\<exists>n. v = PInt n)" "\<not> is_str v"
  with False py_str_bad [of v] obtain c where "c \<in> set (py_str v)" "bad_int_char c" by blast
  with False show ?thesis by (rule safe_int_or_none_bad)
qed

lemma init_jump_index_eq: "init_jump_index v = safe_int_or_none v"
  by (simp add: init_jump_index_def safe_int_or_none_def)

lemma safe_int_or_none_int: "safe_int_or_none (PInt n) = Some (max 0 n)"
  by (simp add: safe_int_or_none_def py_str_def int_of_str_str_of_int str_of_int_not_blank)

lemma safe_int_or_none_nonneg: "safe_int_or_none v = Some n \<Longrightarrow> 0 \<le> n"
  by (auto simp: safe_int_or_none_def Let_def split: if_splits option.splits)

lemma safe_int_or_none_idem: "safe_int_or_none (opt_int (safe_int_or_none v)) = safe_int_or_none v"
proof (cases "safe_int_or_none v")
  case None
  then show ?thesis by (simp add: opt_int_def safe_int_or_none_None)
next
  case (Some n)
  with safe_int_or_none_nonneg [OF Some] show ?thesis
    by (simp add: opt_int_def safe_int_or_none_int)
qed

lemma same_core_refl: "same_core a a"
proof -
  have "a = a\<lparr>params := params a, attrs := attrs a, is_valid := is_valid a,
      validation_error := validation_error a\<rparr>" by simp
  then show ?thesis unfolding same_core_def by blast
qed

lemma same_core_trans: "same_core a b \<Longrightarrow> same_core b c \<Longrightarrow> same_core a c"
  unfolding same_core_def by (elim exE) (simp, blast)

lemma same_core_upd:
  "same_core a (a\<lparr>params := p\<rparr>)" "same_core a (a\<lparr>attrs := q\<rparr>)"
  "same_core a (a\<lparr>is_valid := v\<rparr>)" "same_core a (a\<lparr>validation_error := w\<rparr>)"
proof -
  have "a\<lparr>params := p\<rparr> = a\<lparr>params := p, attrs := attrs a, is_valid := is_valid a,
      validation_error := validation_error a\<rparr>" by simp
  then show "same_core a (a\<lparr>params := p\<rparr>)" unfolding same_core_def by blast
  have "a\<lparr>attrs := q\<rparr> = a\<lparr>params := params a, attrs := q, is_valid := is_valid a,
      validation_error := validation_error a\<rparr>" by simp
  then show "same_core a (a\<lparr>attrs := q\<rparr>)" unfolding same_core_def by blast
  have "a\<lparr>is_valid := v\<rparr> = a\<lparr>params := params a, attrs := attrs a, is_valid := v,
      validation_error := validation_error a\<rparr>" by simp
  then show "same_core a (a\<lparr>is_valid := v\<rparr>)" unfolding same_core_def by blast
  have "a\<lparr>validation_error := w\<rparr> = a\<lparr>params := params a, attrs := attrs a, is_valid := is_valid a,
      validation_error := w\<rparr>" by simp
  then show "same_core a (a\<lparr>validation_error := w\<rparr>)" unfolding same_core_def by blast
qed

lemma same_core_fields:
  "same_core a a' \<Longrightarrow> cls a' = cls a \<and> type a' = type a \<and> condition_id a' = condition_id a
     \<and> condition_instance_cache a' = condition_instance_cache a
     \<and> next_action_index_if_condition_met a' = next_action_index_if_condition_met a
     \<and> next_action_index_if_condition_not_met a' = next_action_index_if_condition_not_met a
     \<and> is_absolute a' = is_absolute a
     \<and> fallback_action_sequence a' = fallback_action_sequence a"
  unfolding same_core_def by auto

lemma frames_int_attr: "frames (int_attr attr k d)"
  unfolding frames_def int_attr_def set_attr_def
  by (auto split: sum.splits intro: same_core_refl same_core_upd)

lemma frames_choice_attr: "frames (choice_attr attr k d cs)"
  unfolding frames_def choice_attr_def set_attr_def set_param_def Let_def
  by (auto intro: same_core_upd same_core_trans [OF same_core_upd(2) same_core_upd(1)])

lemma frames_nonneg_float_attr: "frames (nonneg_float_attr attr k d)"
  unfolding frames_def nonneg_float_attr_def set_attr_def set_param_def
  by (auto split: sum.splits intro: same_core_refl same_core_trans [OF same_core_upd(2) same_core_upd(1)])

lemma frames_str_attr: "frames (str_attr attr k d)"
  unfolding frames_def str_attr_def set_attr_def
  by (auto intro: same_core_upd)

lemma frames_require_nonempty: "frames (require_nonempty ats msg)"
  unfolding frames_def require_nonempty_def
  by (auto intro: same_core_refl same_core_trans [OF same_core_upd(3) same_core_upd(4)])

lemmas frames_steps = frames_int_attr frames_choice_attr frames_nonneg_float_attr frames_str_attr
  frames_require_nonempty

lemma class_steps_frames: "list_all frames (class_steps c)"
  by (cases c) (simp_all add: frames_steps)

lemma run_steps_frame: "list_all frames ss \<Longrightarrow> same_core a (snd (run_steps ss a))"
proof (induction ss arbitrary: a)
  case Nil
  then show ?case by (simp add: same_core_refl)
next
  case (Cons s ss)
  obtain r1 a1 where s: "s a = (r1, a1)" by force
  from Cons(2) have fs: "frames s" and fss: "list_all frames ss" by simp_all
  from fs s have e1: "same_core a a1" unfolding frames_def by (metis snd_conv)
  show ?case
  proof (cases r1)
    case Next
    with s have "run_steps (s # ss) a = run_steps ss a1" by simp
    with Cons(1) [OF fss, of a1] e1 show ?thesis by (auto intro: same_core_trans)
  next
    case (Raise e)
    with s e1 show ?thesis by simp
  next
    case Return
    with s e1 show ?thesis by simp
  qed
qed

lemma finish_same_core: "finish c (r, a1) = Inr a \<Longrightarrow> same_core a1 a"
  by (auto simp: finish_def split: ctl.splits if_splits
      intro: same_core_refl same_core_upd same_core_trans [OF same_core_upd(3) same_core_upd(4)])

lemma TYPE_of_ok: "is_str (PStr (TYPE_of c)) \<and> py_bool (PStr (TYPE_of c))"
  by (cases c) simp_all

lemma new_action_fields:
  assumes "new_action c ps cid m nm ia fb = Inr a"
  shows "cls a = c \<and> type a = TYPE_of c \<and> condition_id a = init_condition_id cid
     \<and> condition_instance_cache a = None
     \<and> next_action_index_if_condition_met a = safe_int_or_none m
     \<and> next_action_index_if_condition_not_met a = safe_int_or_none nm
     \<and> is_absolute a = py_bool ia
     \<and> fallback_action_sequence a = init_fallback fb"
proof -
  obtain a0 where i: "Action_init c (PStr (TYPE_of c)) ps cid m nm ia fb = Inr a0"
    using TYPE_of_ok [of c] by (simp add: Action_init_def)
  then have f0: "cls a0 = c \<and> type a0 = TYPE_of c \<and> condition_id a0 = init_condition_id cid
     \<and> condition_instance_cache a0 = None
     \<and> next_action_index_if_condition_met a0 = safe_int_or_none m
     \<and> next_action_index_if_condition_not_met a0 = safe_int_or_none nm
     \<and> is_absolute a0 = py_bool ia
     \<and> fallback_action_sequence a0 = init_fallback fb"
    using TYPE_of_ok [of c] by (auto simp: Action_init_def py_str_def init_jump_index_eq)
  obtain r a1 where r: "run_steps (class_steps c) a0 = (r, a1)" by force
  from run_steps_frame [OF class_steps_frames [of c], of a0] r have e: "same_core a0 a1" by simp
  from assms i r have "finish c (r, a1) = Inr a" by (simp add: new_action_def)
  then have "same_core a1 a" by (rule finish_same_core)
  with e have "same_core a0 a" by (rule same_core_trans)
  from same_core_fields [OF this] f0 show ?thesis by simp
qed


lemma from_dict_fields:
  assumes "from_dict (PDict d) = Inr a"
  shows "next_action_index_if_condition_met a
           = safe_int_or_none (dict_get d ''next_action_index_if_condition_met'' PNone)
     \<and> next_action_index_if_condition_not_met a
           = safe_int_or_none (dict_get d ''next_action_index_if_condition_not_met'' PNone)
     \<and> is_absolute a = py_bool (dict_get d ''is_absolute'' (PBool False))
     \<and> (\<exists>c. action_class_map (py_str (dict_get d ''type'' PNone)) = Some c \<and> cls a = c \<and> type a = TYPE_of c)"
proof -
  from assms obtain c ps cid fb where
    c: "action_class_map (py_str (dict_get d ''type'' PNone)) = Some c"
    and n: "new_action c ps cid
           (opt_int (safe_int_or_none (dict_get d ''next_action_index_if_condition_met'' PNone)))
           (opt_int (safe_int_or_none (dict_get d ''next_action_index_if_condition_not_met'' PNone)))
           (dict_get d ''is_absolute'' (PBool False)) fb = Inr a"
    by (auto simp: from_dict_def Let_def Action_new_def split: if_splits option.splits sum.splits)
  from new_action_fields [OF n] c show ?thesis
    by (simp add: safe_int_or_none_idem)
qed

lemma isr_obtain: "\<not> isl r \<Longrightarrow> \<exists>x. r = Inr x"
  by (cases r) auto

lemma error_only: "map_sum id (\<lambda>_. ()) r = Inl e \<Longrightarrow> r = Inl e"
  by (cases r) auto

lemma new_action_met:
  "new_action c ps cid m nm ia fb = Inr a \<Longrightarrow> next_action_index_if_condition_met a = safe_int_or_none m"
  and new_action_not_met:
  "new_action c ps cid m nm ia fb = Inr a \<Longrightarrow> next_action_index_if_condition_not_met a = safe_int_or_none nm"
  and new_action_is_absolute:
  "new_action c ps cid m nm ia fb = Inr a \<Longrightarrow> is_absolute a = py_bool ia"
  using new_action_fields [of c ps cid m nm ia fb a] by blast+

lemma from_dict_met:
  "from_dict (PDict d) = Inr a \<Longrightarrow> next_action_index_if_condition_met a
           = safe_int_or_none (dict_get d ''next_action_index_if_condition_met'' PNone)"
  and from_dict_not_met:
  "from_dict (PDict d) = Inr a \<Longrightarrow> next_action_index_if_condition_not_met a
           = safe_int_or_none (dict_get d ''next_action_index_if_condition_not_met'' PNone)"
  and from_dict_is_absolute:
  "from_dict (PDict d) = Inr a \<Longrightarrow> is_absolute a = py_bool (dict_get d ''is_absolute'' (PBool False))"
  using from_dict_fields [of d a] by blast+

lemma step_abs_indep:
  "int_attr attr k d (a\<lparr>is_absolute := b\<rparr>) = (fst (int_attr attr k d a), (snd (int_attr attr k d a))\<lparr>is_absolute := b\<rparr>)"
  "choice_attr attr k e cs (a\<lparr>is_absolute := b\<rparr>)
     = (fst (choice_attr attr k e cs a), (snd (choice_attr attr k e cs a))\<lparr>is_absolute := b\<rparr>)"
  "nonneg_float_attr attr k f (a\<lparr>is_absolute := b\<rparr>)
     = (fst (nonneg_float_attr attr k f a), (snd (nonneg_float_attr attr k f a))\<lparr>is_absolute := b\<rparr>)"
  "str_attr attr k e (a\<lparr>is_absolute := b\<rparr>) = (fst (str_attr attr k e a), (snd (str_attr attr k e a))\<lparr>is_absolute := b\<rparr>)"
  "require_nonempty ats msg (a\<lparr>is_absolute := b\<rparr>)
     = (fst (require_nonempty ats msg a), (snd (require_nonempty ats msg a))\<lparr>is_absolute := b\<rparr>)"
  by (simp_all add: int_attr_def choice_attr_def nonneg_float_attr_def str_attr_def
      require_nonempty_def set_attr_def set_param_def Let_def split: sum.splits)

lemma class_steps_abs_indep: "list_all abs_indep (class_steps c)"
  by (cases c) (simp_all add: abs_indep_def step_abs_indep)

lemma run_steps_abs_indep:
  "list_all abs_indep ss \<Longrightarrow>
   run_steps ss (a\<lparr>is_absolute := b\<rparr>) = (fst (run_steps ss a), (snd (run_steps ss a))\<lparr>is_absolute := b\<rparr>)"
proof (induction ss arbitrary: a)
  case Nil
  then show ?case by simp
next
  case (Cons s ss)
  from Cons(2) have ss: "list_all abs_indep ss" by simp
  from Cons(2) have "abs_indep s" by simp
  then have s: "s (a\<lparr>is_absolute := b\<rparr>) = (fst (s a), (snd (s a))\<lparr>is_absolute := b\<rparr>)"
    by (simp add: abs_indep_def)
  obtain r1 a1 where e: "s a = (r1, a1)" by force
  show ?case
    using Cons(1) [OF ss, of a1] by (cases r1) (simp_all add: s e)
qed

lemma new_action_abs_indep:
  "new_action c ps cid m nm v fb = Inl e \<Longrightarrow> new_action c ps cid m nm w fb = Inl e"
proof -
  assume a: "new_action c ps cid m nm v fb = Inl e"
  obtain a0 where i: "Action_init c (PStr (TYPE_of c)) ps cid m nm v fb = Inr a0"
    using TYPE_of_ok [of c] by (simp add: Action_init_def)
  have j: "Action_init c (PStr (TYPE_of c)) ps cid m nm w fb = Inr (a0\<lparr>is_absolute := py_bool w\<rparr>)"
    using i TYPE_of_ok [of c] by (auto simp: Action_init_def)
  obtain r a1 where r: "run_steps (class_steps c) a0 = (r, a1)" by force
  have r': "run_steps (class_steps c) (a0\<lparr>is_absolute := py_bool w\<rparr>) = (r, a1\<lparr>is_absolute := py_bool w\<rparr>)"
    using run_steps_abs_indep [OF class_steps_abs_indep [of c], where a = a0 and b = "py_bool w"] r
    by simp
  from a i r have "finish c (r, a1) = Inl e" by (simp add: new_action_def)
  then have "finish c (r, a1\<lparr>is_absolute := py_bool w\<rparr>) = Inl e"
    by (auto simp: finish_def split: ctl.splits if_splits)
  with j r' show ?thesis by (simp add: new_action_def)
qed

text \<open>
  Claim C2, as amended. For every value supplied as a jump index, to a constructor or
  through \<^verbatim>\<open>from_dict\<close>: the stored field is None or an integer that is at least 0;
  an integer \<open>n\<close>, or the string that \<^verbatim>\<open>str\<close> prints for it, is stored as
  \<^verbatim>\<open>max(0, n)\<close>, so a non-negative integer is stored unchanged and a negative one
  is clamped to 0; None and every value whose string \<^verbatim>\<open>int()\<close> rejects are stored as
  None. The constructor and \<^verbatim>\<open>from_dict\<close> compute the same function.
\<close>

theorem jump_index_normalisation:
  "init_jump_index v = safe_int_or_none v
   \<and> (safe_int_or_none v = None \<or> (\<exists>n. safe_int_or_none v = Some n \<and> 0 \<le> n))
   \<and> safe_int_or_none (PInt n) = Some (max 0 n)
   \<and> safe_int_or_none (PStr (str_of_int n)) = Some (max 0 n)
   \<and> (v = PNone \<or> int_of_str (py_str v) = None \<longrightarrow> safe_int_or_none v = None)
   \<and> (\<forall>c ps cid w ia fb a. new_action c ps cid v w ia fb = Inr a \<longrightarrow>
         next_action_index_if_condition_met a = safe_int_or_none v
         \<and> next_action_index_if_condition_not_met a = safe_int_or_none w)
   \<and> (\<forall>d a. from_dict (PDict d) = Inr a \<longrightarrow>
         next_action_index_if_condition_met a
           = safe_int_or_none (dict_get d ''next_action_index_if_condition_met'' PNone)
         \<and> next_action_index_if_condition_not_met a
           = safe_int_or_none (dict_get d ''next_action_index_if_condition_not_met'' PNone))"
proof (intro conjI allI impI)
  show "init_jump_index v = safe_int_or_none v" by (rule init_jump_index_eq)
  show "safe_int_or_none v = None \<or> (\<exists>n. safe_int_or_none v = Some n \<and> 0 \<le> n)"
    using safe_int_or_none_nonneg [of v] by (cases "safe_int_or_none v") auto
  show "safe_int_or_none (PInt n) = Some (max 0 n)" by (rule safe_int_or_none_int)
  show "safe_int_or_none (PStr (str_of_int n)) = Some (max 0 n)"
    by (simp add: safe_int_or_none_def py_str_def int_of_str_str_of_int str_of_int_not_blank)
next
  assume "v = PNone \<or> int_of_str (py_str v) = None"
  then show "safe_int_or_none v = None"
    by (auto simp: safe_int_or_none_def Let_def py_strip_Nil)
next
  fix c ps cid w ia fb a
  assume "new_action c ps cid v w ia fb = Inr a"
  from new_action_fields [OF this]
  show "next_action_index_if_condition_met a = safe_int_or_none v"
    and "next_action_index_if_condition_not_met a = safe_int_or_none w" by simp_all
next
  fix d a
  assume "from_dict (PDict d) = Inr a"
  from from_dict_fields [OF this]
  show "next_action_index_if_condition_met a
           = safe_int_or_none (dict_get d ''next_action_index_if_condition_met'' PNone)"
    and "next_action_index_if_condition_not_met a
           = safe_int_or_none (dict_get d ''next_action_index_if_condition_not_met'' PNone)"
    by simp_all
qed

theorem jump_index_normalisation_witness:
  "int_of_str (py_str (PStr ''abc'')) = None
   \<and> safe_int_or_none (PStr ''abc'') = None
   \<and> (case new_action ClickAction (PDict []) PNone (PStr ''abc'') (PStr ''2'') (PBool False) PNone of
         Inl e \<Rightarrow> False
       | Inr a \<Rightarrow> next_action_index_if_condition_met a = None
                 \<and> next_action_index_if_condition_not_met a = Some 2)
   \<and> (case from_dict (PDict [(''type'', PStr ''wait''),
                             (''next_action_index_if_condition_met'', PInt 7)]) of
         Inl e \<Rightarrow> False
       | Inr a \<Rightarrow> next_action_index_if_condition_met a = Some 7
                 \<and> next_action_index_if_condition_not_met a = None)"
proof -
  have h: "int_of_str (py_str (PStr ''abc'')) = None" by code_simp
  have v2: "safe_int_or_none (PStr ''2'') = Some 2" by code_simp
  have v7: "safe_int_or_none (PInt 7) = Some 7" by code_simp
  note t = jump_index_normalisation [of "PStr ''abc''" 0]
  have a: "safe_int_or_none (PStr ''abc'') = None"
    by (rule t [THEN conjunct2, THEN conjunct2, THEN conjunct2, THEN conjunct2, THEN conjunct1, rule_format, OF disjI2 [OF h]])
  have "\<not> isl (new_action ClickAction (PDict []) PNone (PStr ''abc'') (PStr ''2'') (PBool False) PNone)"
    by code_simp
  then obtain x where x: "new_action ClickAction (PDict []) PNone (PStr ''abc'') (PStr ''2'') (PBool False) PNone = Inr x"
    using isr_obtain by blast
  note tx = t [THEN conjunct2, THEN conjunct2, THEN conjunct2, THEN conjunct2, THEN conjunct2, THEN conjunct1, rule_format, OF x]
  have b1: "next_action_index_if_condition_met x = None"
    by (simp only: tx [THEN conjunct1] a)
  have b2: "next_action_index_if_condition_not_met x = Some 2"
    by (simp only: tx [THEN conjunct2] v2)
  let ?d = "[(''type'', PStr ''wait''), (''next_action_index_if_condition_met'', PInt 7)]"
  have "\<not> isl (from_dict (PDict ?d))" by code_simp
  then obtain y where y: "from_dict (PDict ?d) = Inr y" using isr_obtain by blast
  note ty = jump_index_normalisation [of PNone 0, THEN conjunct2, THEN conjunct2, THEN conjunct2, THEN conjunct2, THEN conjunct2, THEN conjunct2, rule_format, OF y]
  have g1: "dict_get ?d ''next_action_index_if_condition_met'' PNone = PInt 7"
    and g2: "dict_get ?d ''next_action_index_if_condition_not_met'' PNone = PNone"
    by (simp_all add: dict_get_def)
  have c1: "next_action_index_if_condition_met y = Some 7"
    by (simp only: ty [THEN conjunct1] g1 v7)
  have c2: "next_action_index_if_condition_not_met y = None"
    by (simp only: ty [THEN conjunct2] g2 safe_int_or_none_None)
  show ?thesis by (simp only: h a x y b1 b2 c1 c2 sum.case simp_thms)
qed

theorem jump_index_negative_counterexample:
  "safe_int_or_none (PInt (- 3)) = Some 0
   \<and> init_jump_index (PInt (- 3)) = Some 0
   \<and> map_sum id next_action_index_if_condition_met
        (from_dict (PDict [(''type'', PStr ''click''),
                           (''next_action_index_if_condition_met'', PInt (- 3)),
                           (''next_action_index_if_condition_not_met'', PStr ''-2'')]))
       = Inr (Some 0)
   \<and> map_sum id next_action_index_if_condition_not_met
        (from_dict (PDict [(''type'', PStr ''click''),
                           (''next_action_index_if_condition_met'', PInt (- 3)),
                           (''next_action_index_if_condition_not_met'', PStr ''-2'')]))
       = Inr (Some 0)"
  by code_simp

text \<open>
  Claim C1 fails on the code. \<^verbatim>\<open>create_action\<close> raises TypeError on every input for
  which it reaches one of its fallbacks: an input that is not a dict, a dict that
  \<^verbatim>\<open>from_dict\<close> rejects, a dict with an unknown type, and a known type whose
  constructor raises. Each fallback instantiates the abstract class \<^verbatim>\<open>Action\<close>.
\<close>

theorem create_action_raises:
  "create_action PNone = Inl TypeError
   \<and> create_action (PList []) = Inl TypeError
   \<and> create_action (PDict []) = Inl TypeError
   \<and> from_dict (PDict [(''type'', PStr ''teleport''), (''params'', PDict [])]) = Inl TypeError
   \<and> create_action (PDict [(''type'', PStr ''teleport''), (''params'', PDict [])]) = Inl TypeError
   \<and> create_action (PDict [(''type'', PStr ''click''), (''params'', PDict [(''x'', PFloat (FInf False))])])
       = Inl TypeError"
proof (intro conjI)
  show "create_action PNone = Inl TypeError" by (rule error_only) code_simp
  show "create_action (PList []) = Inl TypeError" by (rule error_only) code_simp
  show "create_action (PDict []) = Inl TypeError" by (rule error_only) code_simp
  show "from_dict (PDict [(''type'', PStr ''teleport''), (''params'', PDict [])]) = Inl TypeError"
    by (rule error_only) code_simp
  show "create_action (PDict [(''type'', PStr ''teleport''), (''params'', PDict [])]) = Inl TypeError"
    by (rule error_only) code_simp
  show "create_action (PDict [(''type'', PStr ''click''), (''params'', PDict [(''x'', PFloat (FInf False))])])
       = Inl TypeError"
    by (rule error_only) code_simp
qed

theorem create_action_raises_witness:
  "isl (create_action PNone) \<and> isl (create_action (PDict []))
   \<and> isl (create_action (PDict [(''type'', PStr ''teleport''), (''params'', PDict [])]))"
  using create_action_raises by simp

text \<open>
  Claim C9. A jump index that is a float (2.0 as well as 2.5) or a bool is stored as
  None by the constructors and by \<^verbatim>\<open>from_dict\<close>: the string that \<^verbatim>\<open>str\<close> prints
  for it holds a character that no integer literal holds, so \<^verbatim>\<open>int()\<close> raises
  ValueError; the string \<^verbatim>\<open>"2"\<close> is stored as 2.
\<close>

theorem float_and_bool_jump_index:
  "safe_int_or_none (PFloat f) = None \<and> safe_int_or_none (PBool b) = None
   \<and> init_jump_index (PFloat f) = None \<and> init_jump_index (PBool b) = None
   \<and> (\<exists>c \<in> set (py_str (PFloat f)). bad_int_char c) \<and> int_of_str (py_str (PFloat f)) = None
   \<and> int_of_str (py_str (PBool b)) = None
   \<and> py_str (PFloat (FFin False 2 0)) = ''2.0''
   \<and> py_str (PFloat (FFin False 25 (- 1))) = ''2.5''
   \<and> safe_int_or_none (PStr ''2'') = Some 2
   \<and> (\<forall>c ps cid v w ia fb a.
         new_action c ps cid v w ia fb = Inr a \<and> (v = PFloat f \<or> v = PBool b) \<longrightarrow>
         next_action_index_if_condition_met a = None)
   \<and> (\<forall>c ps cid v w ia fb a.
         new_action c ps cid v w ia fb = Inr a \<and> (w = PFloat f \<or> w = PBool b) \<longrightarrow>
         next_action_index_if_condition_not_met a = None)
   \<and> (\<forall>d v a. from_dict (PDict d) = Inr a
         \<and> dict_get d ''next_action_index_if_condition_met'' PNone = v
         \<and> (v = PFloat f \<or> v = PBool b) \<longrightarrow>
         next_action_index_if_condition_met a = None)
   \<and> (\<forall>d v a. from_dict (PDict d) = Inr a
         \<and> dict_get d ''next_action_index_if_condition_not_met'' PNone = v
         \<and> (v = PFloat f \<or> v = PBool b) \<longrightarrow>
         next_action_index_if_condition_not_met a = None)"
proof -
  have F: "safe_int_or_none (PFloat f) = None" and B: "safe_int_or_none (PBool b) = None"
    by (simp_all add: safe_int_or_none_not_numeric)
  have FB: "safe_int_or_none v = None" if "v = PFloat f \<or> v = PBool b" for v
    using that F B by blast
  obtain c where c: "c \<in> set (py_str (PFloat f))" "bad_int_char c"
    using py_str_bad [of "PFloat f"] by auto
  obtain c' where c': "c' \<in> set (py_str (PBool b))" "bad_int_char c'"
    using py_str_bad [of "PBool b"] by auto
  have two: "py_str (PFloat (FFin False 2 0)) = ''2.0''" by code_simp
  have half: "py_str (PFloat (FFin False 25 (- 1))) = ''2.5''" by code_simp
  have s2: "safe_int_or_none (PStr ''2'') = Some 2" by code_simp
  show ?thesis
  proof (intro conjI allI impI)
    show "safe_int_or_none (PFloat f) = None" by (rule F)
    show "safe_int_or_none (PBool b) = None" by (rule B)
    show "init_jump_index (PFloat f) = None" by (simp only: init_jump_index_eq F)
    show "init_jump_index (PBool b) = None" by (simp only: init_jump_index_eq B)
    show "\<exists>c \<in> set (py_str (PFloat f)). bad_int_char c" using c by blast
    show "int_of_str (py_str (PFloat f)) = None" using c by (rule int_of_str_bad_char)
    show "int_of_str (py_str (PBool b)) = None" using c' by (rule int_of_str_bad_char)
    show "py_str (PFloat (FFin False 2 0)) = ''2.0''" by (rule two)
    show "py_str (PFloat (FFin False 25 (- 1))) = ''2.5''" by (rule half)
    show "safe_int_or_none (PStr ''2'') = Some 2" by (rule s2)
  next
    fix c ps cid v w ia fb a
    assume h: "new_action c ps cid v w ia fb = Inr a \<and> (v = PFloat f \<or> v = PBool b)"
    show "next_action_index_if_condition_met a = None"
      by (simp only: new_action_met [OF h [THEN conjunct1]] FB [OF h [THEN conjunct2]])
  next
    fix c ps cid v w ia fb a
    assume h: "new_action c ps cid v w ia fb = Inr a \<and> (w = PFloat f \<or> w = PBool b)"
    show "next_action_index_if_condition_not_met a = None"
      by (simp only: new_action_not_met [OF h [THEN conjunct1]] FB [OF h [THEN conjunct2]])
  next
    fix d v a
    assume h: "from_dict (PDict d) = Inr a
         \<and> dict_get d ''next_action_index_if_condition_met'' PNone = v
         \<and> (v = PFloat f \<or> v = PBool b)"
    show "next_action_index_if_condition_met a = None"
      by (simp only: from_dict_met [OF h [THEN conjunct1]] h [THEN conjunct2, THEN conjunct1]
          FB [OF h [THEN conjunct2, THEN conjunct2]])
  next
    fix d v a
    assume h: "from_dict (PDict d) = Inr a
         \<and> dict_get d ''next_action_index_if_condition_not_met'' PNone = v
         \<and> (v = PFloat f \<or> v = PBool b)"
    show "next_action_index_if_condition_not_met a = None"
      by (simp only: from_dict_not_met [OF h [THEN conjunct1]] h [THEN conjunct2, THEN conjunct1]
          FB [OF h [THEN conjunct2, THEN conjunct2]])
  qed
qed

theorem float_and_bool_jump_index_witness:
  "(case new_action MoveMouseAction (PDict []) PNone (PFloat (FFin False 2 0)) (PBool True) PNone PNone of
      Inl e \<Rightarrow> False
    | Inr a \<Rightarrow> next_action_index_if_condition_met a = None
              \<and> next_action_index_if_condition_not_met a = None)
   \<and> (case from_dict (PDict [(''type'', PStr ''click''),
                             (''next_action_index_if_condition_met'', PFloat (FFin False 2 0)),
                             (''next_action_index_if_condition_not_met'', PBool True)]) of
         Inl e \<Rightarrow> False
       | Inr a \<Rightarrow> next_action_index_if_condition_met a = None
                 \<and> next_action_index_if_condition_not_met a = None)"
proof -
  note t = float_and_bool_jump_index [of "FFin False 2 0" True]
  have "\<not> isl (new_action MoveMouseAction (PDict []) PNone (PFloat (FFin False 2 0)) (PBool True) PNone PNone)"
    by code_simp
  then obtain x where x: "new_action MoveMouseAction (PDict []) PNone (PFloat (FFin False 2 0)) (PBool True) PNone PNone = Inr x"
    using isr_obtain by blast
  have a1: "next_action_index_if_condition_met x = None"
    by (rule t [THEN conjunct2, THEN conjunct2, THEN conjunct2, THEN conjunct2, THEN conjunct2, THEN conjunct2, THEN conjunct2, THEN conjunct2, THEN conjunct2, THEN conjunct2, THEN conjunct1, rule_format, OF conjI [OF x disjI1 [OF refl]]])
  have a2: "next_action_index_if_condition_not_met x = None"
    by (rule t [THEN conjunct2, THEN conjunct2, THEN conjunct2, THEN conjunct2, THEN conjunct2, THEN conjunct2, THEN conjunct2, THEN conjunct2, THEN conjunct2, THEN conjunct2, THEN conjunct2, THEN conjunct1, rule_format, OF conjI [OF x disjI2 [OF refl]]])
  let ?d = "[(''type'', PStr ''click''),
                             (''next_action_index_if_condition_met'', PFloat (FFin False 2 0)),
                             (''next_action_index_if_condition_not_met'', PBool True)]"
  have "\<not> isl (from_dict (PDict ?d))" by code_simp
  then obtain y where y: "from_dict (PDict ?d) = Inr y" using isr_obtain by blast
  have g1: "dict_get ?d ''next_action_index_if_condition_met'' PNone = PFloat (FFin False 2 0)"
    by (simp add: dict_get_def)
  have g2: "dict_get ?d ''next_action_index_if_condition_not_met'' PNone = PBool True"
    by (simp add: dict_get_def)
  have b1: "next_action_index_if_condition_met y = None"
    by (rule t [THEN conjunct2, THEN conjunct2, THEN conjunct2, THEN conjunct2, THEN conjunct2, THEN conjunct2, THEN conjunct2, THEN conjunct2, THEN conjunct2, THEN conjunct2, THEN conjunct2, THEN conjunct2, THEN conjunct1, rule_format, OF conjI [OF y conjI [OF g1 disjI1 [OF refl]]]])
  have b2: "next_action_index_if_condition_not_met y = None"
    by (rule t [THEN conjunct2, THEN conjunct2, THEN conjunct2, THEN conjunct2, THEN conjunct2, THEN conjunct2, THEN conjunct2, THEN conjunct2, THEN conjunct2, THEN conjunct2, THEN conjunct2, THEN conjunct2, THEN conjunct2, rule_format, OF conjI [OF y conjI [OF g2 disjI2 [OF refl]]]])
  show ?thesis by (simp only: x y a1 a2 b1 b2 sum.case simp_thms)
qed

text \<open>
  Claim C10. The stored flag \<^verbatim>\<open>is_absolute\<close> is the truth value \<^verbatim>\<open>bool(value)\<close> of
  whatever was supplied, to a constructor or in the dict given to \<^verbatim>\<open>from_dict\<close>, and
  \<^verbatim>\<open>to_dict\<close> writes that bool; a constructor that raises does so whatever the value
  of \<^verbatim>\<open>is_absolute\<close> is, so no value of it is rejected. The string \<^verbatim>\<open>"false"\<close>, the
  integer 1 and a list with an element are true; None, 0 and the empty string are false.
\<close>

theorem is_absolute_truthiness:
  "(\<forall>a. new_action c ps cid m nm v fb = Inr a \<longrightarrow>
        is_absolute a = py_bool v
        \<and> (\<exists>d. to_dict a = PDict d \<and> map_of d ''is_absolute'' = Some (PBool (py_bool v))))
   \<and> (\<forall>e w. new_action c ps cid m nm v fb = Inl e \<longrightarrow> new_action c ps cid m nm w fb = Inl e)
   \<and> (\<forall>d a. from_dict (PDict d) = Inr a \<and> dict_get d ''is_absolute'' (PBool False) = v \<longrightarrow>
        is_absolute a = py_bool v
        \<and> (\<exists>d'. to_dict a = PDict d' \<and> map_of d' ''is_absolute'' = Some (PBool (py_bool v))))
   \<and> py_bool (PStr ''false'') \<and> py_bool (PInt 1) \<and> py_bool (PList [PNone])
   \<and> \<not> py_bool PNone \<and> \<not> py_bool (PInt 0) \<and> \<not> py_bool (PStr [])"
proof -
  have ser: "\<exists>d. to_dict a = PDict d \<and> map_of d ''is_absolute'' = Some (PBool (is_absolute a))" for a
    by (simp add: to_dict_def)
  show ?thesis
  proof (intro conjI allI impI)
    fix a assume h: "new_action c ps cid m nm v fb = Inr a"
    show "is_absolute a = py_bool v" by (rule new_action_is_absolute [OF h])
    show "\<exists>d. to_dict a = PDict d \<and> map_of d ''is_absolute'' = Some (PBool (py_bool v))"
      using ser [of a] by (simp only: new_action_is_absolute [OF h])
  next
    fix e w assume "new_action c ps cid m nm v fb = Inl e"
    then show "new_action c ps cid m nm w fb = Inl e" by (rule new_action_abs_indep)
  next
    fix d a assume h: "from_dict (PDict d) = Inr a \<and> dict_get d ''is_absolute'' (PBool False) = v"
    have e: "is_absolute a = py_bool v"
      by (simp only: from_dict_is_absolute [OF h [THEN conjunct1]] h [THEN conjunct2])
    show "is_absolute a = py_bool v" by (rule e)
    show "\<exists>d'. to_dict a = PDict d' \<and> map_of d' ''is_absolute'' = Some (PBool (py_bool v))"
      using ser [of a] by (simp only: e)
  next
    show "py_bool (PStr ''false'')" by simp
    show "py_bool (PInt 1)" by simp
    show "py_bool (PList [PNone])" by simp
    show "\<not> py_bool PNone" by simp
    show "\<not> py_bool (PInt 0)" by simp
    show "\<not> py_bool (PStr [])" by simp
  qed
qed

theorem is_absolute_truthiness_witness:
  "(case new_action WaitAction (PDict []) PNone PNone PNone (PStr ''false'') PNone of
      Inl e \<Rightarrow> False
    | Inr a \<Rightarrow> is_absolute a)
   \<and> (case from_dict (PDict [(''type'', PStr ''click''), (''is_absolute'', PInt 0)]) of
         Inl e \<Rightarrow> False
       | Inr a \<Rightarrow> \<not> is_absolute a)
   \<and> new_action ClickAction (PDict [(''x'', PFloat (FInf False))]) PNone PNone PNone (PBool True) PNone
       = Inl OverflowError
   \<and> new_action ClickAction (PDict [(''x'', PFloat (FInf False))]) PNone PNone PNone (PStr ''yes'') PNone
       = Inl OverflowError"
proof -
  have "\<not> isl (new_action WaitAction (PDict []) PNone PNone PNone (PStr ''false'') PNone)"
    by code_simp
  then obtain x where x: "new_action WaitAction (PDict []) PNone PNone PNone (PStr ''false'') PNone = Inr x"
    using isr_obtain by blast
  note t1 = is_absolute_truthiness [of WaitAction "PDict []" PNone PNone PNone "PStr ''false''" PNone]
  have a: "is_absolute x"
    using t1 [THEN conjunct1, rule_format, OF x, THEN conjunct1] by simp
  let ?d = "[(''type'', PStr ''click''), (''is_absolute'', PInt 0)]"
  have "\<not> isl (from_dict (PDict ?d))" by code_simp
  then obtain y where y: "from_dict (PDict ?d) = Inr y" using isr_obtain by blast
  have g: "dict_get ?d ''is_absolute'' (PBool False) = PInt 0" by (simp add: dict_get_def)
  note t2 = is_absolute_truthiness [of ClickAction PNone PNone PNone PNone "PInt 0" PNone]
  have b: "\<not> is_absolute y"
    using t2 [THEN conjunct2, THEN conjunct2, THEN conjunct1, rule_format, OF conjI [OF y g], THEN conjunct1]
    by simp
  have o: "new_action ClickAction (PDict [(''x'', PFloat (FInf False))]) PNone PNone PNone (PBool True) PNone
       = Inl OverflowError"
    by (rule error_only) code_simp
  note t3 = is_absolute_truthiness [of ClickAction "PDict [(''x'', PFloat (FInf False))]" PNone PNone PNone
      "PBool True" PNone]
  have o': "new_action ClickAction (PDict [(''x'', PFloat (FInf False))]) PNone PNone PNone (PStr ''yes'') PNone
       = Inl OverflowError"
    by (rule t3 [THEN conjunct2, THEN conjunct1, rule_format, OF o])
  show ?thesis by (simp only: x y a b o o' sum.case simp_thms)
qed

lemma dict_get_cong: "map_of P k = map_of Q k \<Longrightarrow> dict_get P k d = dict_get Q k d"
  by (simp add: dict_get_def)

lemma map_of_dict_set: "map_of (dict_set P k v) k' = (if k' = k then Some v else map_of P k')"
  by (simp add: dict_set_def update_conv')

lemma dict_set_triv: "map_of P k = Some v \<Longrightarrow> dict_set P k v = P"
  by (simp add: dict_set_def update_triv)

lemma dict_get_Some: "map_of P k = Some v \<Longrightarrow> dict_get P k d = v"
  by (simp add: dict_get_def)

lemma float_max_idem: "float_max z (float_max z f) = float_max z f"
  by (simp add: float_max_def)

lemma keyed_int_attr: "keyed [k] (int_attr attr k d)"
  unfolding keyed_def
proof (intro conjI allI impI)
  fix a k' assume "k' \<notin> set [k]"
  show "map_of (params (snd (int_attr attr k d a))) k' = map_of (params a) k'"
    by (simp add: int_attr_def set_attr_def split: sum.splits)
next
  fix a P assume h: "\<forall>k' \<in> set [k]. map_of P k' = map_of (params (snd (int_attr attr k d a))) k'"
  have p: "params (snd (int_attr attr k d a)) = params a"
    by (simp add: int_attr_def set_attr_def split: sum.splits)
  from h p have "map_of P k = map_of (params a) k" by simp
  then have g: "dict_get P k d = dict_get (params a) k d" by (rule dict_get_cong)
  show "int_attr attr k d (a\<lparr>params := P\<rparr>)
      = (fst (int_attr attr k d a), (snd (int_attr attr k d a))\<lparr>params := P\<rparr>)"
    by (simp add: int_attr_def set_attr_def g split: sum.splits)
qed

lemma keyed_str_attr: "keyed [k] (str_attr attr k d)"
  unfolding keyed_def
proof (intro conjI allI impI)
  fix a k' assume "k' \<notin> set [k]"
  show "map_of (params (snd (str_attr attr k d a))) k' = map_of (params a) k'"
    by (simp add: str_attr_def set_attr_def)
next
  fix a P assume h: "\<forall>k' \<in> set [k]. map_of P k' = map_of (params (snd (str_attr attr k d a))) k'"
  have p: "params (snd (str_attr attr k d a)) = params a"
    by (simp add: str_attr_def set_attr_def)
  from h p have "map_of P k = map_of (params a) k" by simp
  then have g: "dict_get P k (PStr d) = dict_get (params a) k (PStr d)" by (rule dict_get_cong)
  show "str_attr attr k d (a\<lparr>params := P\<rparr>)
      = (fst (str_attr attr k d a), (snd (str_attr attr k d a))\<lparr>params := P\<rparr>)"
    by (simp add: str_attr_def set_attr_def g)
qed

lemma keyed_require_nonempty: "keyed [] (require_nonempty ats msg)"
  unfolding keyed_def by (simp add: require_nonempty_def)

lemma keyed_nonneg_float_attr: "keyed [k] (nonneg_float_attr attr k d)"
  unfolding keyed_def
proof (intro conjI allI impI)
  fix a k' assume "k' \<notin> set [k]"
  then show "map_of (params (snd (nonneg_float_attr attr k d a))) k' = map_of (params a) k'"
    by (simp add: nonneg_float_attr_def set_attr_def set_param_def map_of_dict_set split: sum.splits)
next
  fix a P assume h: "\<forall>k' \<in> set [k]. map_of P k' = map_of (params (snd (nonneg_float_attr attr k d a))) k'"
  show "nonneg_float_attr attr k d (a\<lparr>params := P\<rparr>)
      = (fst (nonneg_float_attr attr k d a), (snd (nonneg_float_attr attr k d a))\<lparr>params := P\<rparr>)"
  proof (cases "py_float (dict_get (params a) k (PFloat d))")
    case (Inl e)
    then have p: "params (snd (nonneg_float_attr attr k d a)) = params a"
      by (simp add: nonneg_float_attr_def)
    from h p have "map_of P k = map_of (params a) k" by simp
    then have g: "dict_get P k (PFloat d) = dict_get (params a) k (PFloat d)" by (rule dict_get_cong)
    show ?thesis by (simp add: nonneg_float_attr_def g Inl)
  next
    case (Inr f)
    let ?f = "float_max float_zero f"
    have p: "map_of (params (snd (nonneg_float_attr attr k d a))) k = Some (PFloat ?f)"
      by (simp add: nonneg_float_attr_def Inr set_param_def set_attr_def map_of_dict_set)
    with h have m: "map_of P k = Some (PFloat ?f)" by simp
    then have g: "dict_get P k (PFloat d) = PFloat ?f" by (rule dict_get_Some)
    have t: "dict_set P k (PFloat ?f) = P" using m by (rule dict_set_triv)
    show ?thesis
      by (simp add: nonneg_float_attr_def Inr g float_max_idem set_param_def set_attr_def t)
  qed
qed

lemma keyed_choice_attr:
  assumes "py_lower d = d" "d \<in> set cs"
  shows "keyed [k] (choice_attr attr k d cs)"
  unfolding keyed_def
proof (intro conjI allI impI)
  fix a k' assume "k' \<notin> set [k]"
  then show "map_of (params (snd (choice_attr attr k d cs a))) k' = map_of (params a) k'"
    by (simp add: choice_attr_def set_attr_def set_param_def map_of_dict_set Let_def)
next
  fix a P assume h: "\<forall>k' \<in> set [k]. map_of P k' = map_of (params (snd (choice_attr attr k d cs a))) k'"
  let ?v = "py_lower (py_str (dict_get (params a) k (PStr d)))"
  show "choice_attr attr k d cs (a\<lparr>params := P\<rparr>)
      = (fst (choice_attr attr k d cs a), (snd (choice_attr attr k d cs a))\<lparr>params := P\<rparr>)"
  proof (cases "?v \<in> set cs")
    case True
    then have p: "params (snd (choice_attr attr k d cs a)) = params a"
      by (simp add: choice_attr_def set_attr_def Let_def)
    from h p have "map_of P k = map_of (params a) k" by simp
    then have g: "dict_get P k (PStr d) = dict_get (params a) k (PStr d)" by (rule dict_get_cong)
    show ?thesis using True by (simp add: choice_attr_def set_attr_def Let_def g)
  next
    case False
    then have p: "map_of (params (snd (choice_attr attr k d cs a))) k = Some (PStr d)"
      by (simp add: choice_attr_def set_attr_def set_param_def Let_def map_of_dict_set)
    with h have m: "map_of P k = Some (PStr d)" by simp
    then have g: "dict_get P k (PStr d) = PStr d" by (rule dict_get_Some)
    have t: "dict_set P k (PStr d) = P" using m by (rule dict_set_triv)
    show ?thesis
      using False assms by (simp add: choice_attr_def set_attr_def set_param_def Let_def g py_str_def)
  qed
qed

lemma lower_left: "py_lower ''left'' = ''left''" and lower_single: "py_lower ''single'' = ''single''"
  by code_simp+

lemmas keyed_steps = keyed_int_attr keyed_str_attr keyed_require_nonempty keyed_nonneg_float_attr
  keyed_choice_attr [OF lower_left] keyed_choice_attr [OF lower_single]

lemma class_keyed_steps_snd: "map snd (class_keyed_steps c) = class_steps c"
  by (cases c) simp_all

lemma class_keyed_steps_keyed: "list_all (\<lambda>(K, s). keyed K s) (class_keyed_steps c)"
  by (cases c) (simp_all add: keyed_steps)

lemma class_keyed_steps_distinct: "distinct (concat (map fst (class_keyed_steps c)))"
  by (cases c) simp_all

lemma run_keyed_frame:
  "list_all (\<lambda>(K, s). keyed K s) kss \<Longrightarrow> k \<notin> set (concat (map fst kss)) \<Longrightarrow>
   map_of (params (snd (run_steps (map snd kss) a))) k = map_of (params a) k"
proof (induction kss arbitrary: a)
  case Nil
  then show ?case by simp
next
  case (Cons ks kss)
  obtain K s where ks: "ks = (K, s)" by force
  obtain r1 a1 where s: "s a = (r1, a1)" by force
  from Cons(2) ks have key: "keyed K s" and rest: "list_all (\<lambda>(K, s). keyed K s) kss" by simp_all
  from Cons(3) ks have k1: "k \<notin> set K" and k2: "k \<notin> set (concat (map fst kss))" by simp_all
  from key k1 s have e1: "map_of (params a1) k = map_of (params a) k"
    unfolding keyed_def by (metis snd_conv)
  show ?case
  proof (cases r1)
    case Next
    with Cons(1) [OF rest k2, of a1] e1 s ks show ?thesis by simp
  next
    case (Raise e)
    with e1 s ks show ?thesis by simp
  next
    case Return
    with e1 s ks show ?thesis by simp
  qed
qed

lemma run_keyed_stable:
  "list_all (\<lambda>(K, s). keyed K s) kss \<Longrightarrow> distinct (concat (map fst kss)) \<Longrightarrow>
   \<forall>k \<in> set (concat (map fst kss)). map_of P k = map_of (params (snd (run_steps (map snd kss) a))) k \<Longrightarrow>
   run_steps (map snd kss) (a\<lparr>params := P\<rparr>)
     = (fst (run_steps (map snd kss) a), (snd (run_steps (map snd kss) a))\<lparr>params := P\<rparr>)"
proof (induction kss arbitrary: a)
  case Nil
  then show ?case by simp
next
  case (Cons ks kss)
  obtain K s where ks: "ks = (K, s)" by force
  obtain r1 a1 where s: "s a = (r1, a1)" by force
  from Cons(2) ks have key: "keyed K s" and rest: "list_all (\<lambda>(K, s). keyed K s) kss" by simp_all
  from Cons(3) ks have d1: "distinct (concat (map fst kss))"
    and d2: "\<And>k. k \<in> set K \<Longrightarrow> k \<notin> set (concat (map fst kss))" by auto
  show ?case
  proof (cases r1)
    case Next
    then have run: "run_steps (map snd (ks # kss)) a = run_steps (map snd kss) a1"
      using s ks by simp
    have agree: "\<forall>k \<in> set K. map_of P k = map_of (params (snd (s a))) k"
    proof
      fix k assume k: "k \<in> set K"
      with Cons(4) ks have "map_of P k = map_of (params (snd (run_steps (map snd (ks # kss)) a))) k"
        by simp
      also have "\<dots> = map_of (params a1) k"
        unfolding run using run_keyed_frame [OF rest d2 [OF k], of a1] .
      finally show "map_of P k = map_of (params (snd (s a))) k" using s by simp
    qed
    with key have st: "s (a\<lparr>params := P\<rparr>) = (Next, a1\<lparr>params := P\<rparr>)"
      unfolding keyed_def using s Next by (metis fst_conv snd_conv)
    have "\<forall>k \<in> set (concat (map fst kss)). map_of P k = map_of (params (snd (run_steps (map snd kss) a1))) k"
      using Cons(4) ks unfolding run by simp
    from Cons(1) [OF rest d1 this] show ?thesis
      unfolding run using st ks by simp
  next
    case (Raise e)
    then have run: "run_steps (map snd (ks # kss)) a = (Raise e, a1)" using s ks by simp
    have "\<forall>k \<in> set K. map_of P k = map_of (params (snd (s a))) k"
      using Cons(4) ks s unfolding run by simp
    with key have "s (a\<lparr>params := P\<rparr>) = (Raise e, a1\<lparr>params := P\<rparr>)"
      unfolding keyed_def using s Raise by (metis fst_conv snd_conv)
    then show ?thesis unfolding run using ks by simp
  next
    case Return
    then have run: "run_steps (map snd (ks # kss)) a = (Return, a1)" using s ks by simp
    have "\<forall>k \<in> set K. map_of P k = map_of (params (snd (s a))) k"
      using Cons(4) ks s unfolding run by simp
    with key have "s (a\<lparr>params := P\<rparr>) = (Return, a1\<lparr>params := P\<rparr>)"
      unfolding keyed_def using s Return by (metis fst_conv snd_conv)
    then show ?thesis unfolding run using ks by simp
  qed
qed

lemma run_steps_again:
  assumes "run_steps (class_steps c) a = (r, a1)"
  shows "run_steps (class_steps c) (a\<lparr>params := params a1\<rparr>) = (r, a1)"
proof -
  have "run_steps (map snd (class_keyed_steps c)) (a\<lparr>params := params (snd (run_steps (map snd (class_keyed_steps c)) a))\<rparr>)
     = (fst (run_steps (map snd (class_keyed_steps c)) a),
        (snd (run_steps (map snd (class_keyed_steps c)) a))
          \<lparr>params := params (snd (run_steps (map snd (class_keyed_steps c)) a))\<rparr>)"
    by (rule run_keyed_stable [OF class_keyed_steps_keyed class_keyed_steps_distinct]) simp
  then show ?thesis using assms by (simp add: class_keyed_steps_snd)
qed

lemma py_strip_idem: "py_strip (py_strip s) = py_strip s"
  by (simp add: py_strip_def strip_with_idem)

lemma init_condition_id_idem: "init_condition_id (opt_str (init_condition_id v)) = init_condition_id v"
  by (cases v) (simp_all add: init_condition_id_def opt_str_def py_strip_idem)

lemma init_jump_index_idem: "init_jump_index (opt_int (init_jump_index v)) = init_jump_index v"
  by (simp add: init_jump_index_eq safe_int_or_none_idem)

lemma valid_fallback_is_dict: "valid_fallback x \<Longrightarrow> is_dict x"
  by (cases x) simp_all

lemma init_fallback_idem: "init_fallback (opt_list (init_fallback v)) = init_fallback v"
  by (cases v) (simp_all add: init_fallback_def opt_list_def)

lemma from_dict_fallback_idem:
  "(case opt_list (init_fallback v) of
      PList xs \<Rightarrow> if filter is_dict xs \<noteq> [] then PList (filter is_dict xs) else PNone
    | _ \<Rightarrow> PNone) = opt_list (init_fallback v)"
proof (cases "init_fallback v")
  case None
  then show ?thesis by (simp add: opt_list_def)
next
  case (Some xs)
  then have xs: "xs \<noteq> []" "\<forall>x \<in> set xs. valid_fallback x"
    by (cases v; auto simp: init_fallback_def split: if_splits)+
  then have "filter is_dict xs = xs"
    by (auto simp: filter_id_conv dest: valid_fallback_is_dict)
  with xs Some show ?thesis by (simp add: opt_list_def)
qed

lemma action_class_map_TYPE: "action_class_map (TYPE_of c) = Some c"
  by (cases c) (simp_all add: action_class_map_def)

lemma finish_params: "finish c (r, a1) = Inr a \<Longrightarrow> params a = params a1"
  by (auto simp: finish_def split: ctl.splits if_splits)

lemma Action_init_eq:
  "Action_init c (PStr (TYPE_of c)) ps cid m nm ia fb =
     Inr \<lparr>cls = c, type = TYPE_of c,
          params = (case ps of PDict d \<Rightarrow> d | _ \<Rightarrow> []),
          condition_id = init_condition_id cid,
          condition_instance_cache = None,
          next_action_index_if_condition_met = init_jump_index m,
          next_action_index_if_condition_not_met = init_jump_index nm,
          is_absolute = py_bool ia,
          fallback_action_sequence = init_fallback fb,
          is_valid = True, validation_error = None, attrs = []\<rparr>"
  using TYPE_of_ok [of c] by (simp add: Action_init_def py_str_def)

text \<open>Constructing again from the fields of a constructed action gives the same action.\<close>

lemma new_action_again:
  assumes "new_action c ps cid m nm ia fb = Inr a"
  shows "new_action c (PDict (params a)) (opt_str (condition_id a))
           (opt_int (next_action_index_if_condition_met a))
           (opt_int (next_action_index_if_condition_not_met a))
           (PBool (is_absolute a)) (opt_list (fallback_action_sequence a)) = Inr a"
proof -
  define a0 where "a0 = \<lparr>cls = c, type = TYPE_of c,
          params = (case ps of PDict d \<Rightarrow> d | _ \<Rightarrow> []),
          condition_id = init_condition_id cid,
          condition_instance_cache = None,
          next_action_index_if_condition_met = init_jump_index m,
          next_action_index_if_condition_not_met = init_jump_index nm,
          is_absolute = py_bool ia,
          fallback_action_sequence = init_fallback fb,
          is_valid = True, validation_error = None, attrs = []\<rparr>"
  have i: "Action_init c (PStr (TYPE_of c)) ps cid m nm ia fb = Inr a0"
    unfolding a0_def by (rule Action_init_eq)
  obtain r a1 where r: "run_steps (class_steps c) a0 = (r, a1)" by force
  from assms i r have f: "finish c (r, a1) = Inr a" by (simp add: new_action_def)
  have p: "params a = params a1" using f by (rule finish_params)
  have fields: "condition_id a = init_condition_id cid"
    "next_action_index_if_condition_met a = init_jump_index m"
    "next_action_index_if_condition_not_met a = init_jump_index nm"
    "is_absolute a = py_bool ia"
    "fallback_action_sequence a = init_fallback fb"
    using new_action_fields [OF assms] by (simp_all add: init_jump_index_eq)
  have j: "Action_init c (PStr (TYPE_of c)) (PDict (params a)) (opt_str (condition_id a))
           (opt_int (next_action_index_if_condition_met a))
           (opt_int (next_action_index_if_condition_not_met a))
           (PBool (is_absolute a)) (opt_list (fallback_action_sequence a))
         = Inr (a0\<lparr>params := params a1\<rparr>)"
    unfolding Action_init_eq fields p a0_def
    by (simp add: init_condition_id_idem init_jump_index_idem init_fallback_idem)
  have "run_steps (class_steps c) (a0\<lparr>params := params a1\<rparr>) = (r, a1)"
    using r by (rule run_steps_again)
  with j f show ?thesis by (simp add: new_action_def)
qed

lemma to_dict_lookups:
  "dict_get (case to_dict a of PDict d \<Rightarrow> d | _ \<Rightarrow> []) ''type'' PNone = PStr (type a)"
  "dict_get (case to_dict a of PDict d \<Rightarrow> d | _ \<Rightarrow> []) ''params'' (PDict []) = PDict (params a)"
  "dict_get (case to_dict a of PDict d \<Rightarrow> d | _ \<Rightarrow> []) ''condition_id'' PNone = opt_str (condition_id a)"
  "dict_get (case to_dict a of PDict d \<Rightarrow> d | _ \<Rightarrow> []) ''next_action_index_if_condition_met'' PNone
     = opt_int (next_action_index_if_condition_met a)"
  "dict_get (case to_dict a of PDict d \<Rightarrow> d | _ \<Rightarrow> []) ''next_action_index_if_condition_not_met'' PNone
     = opt_int (next_action_index_if_condition_not_met a)"
  "dict_get (case to_dict a of PDict d \<Rightarrow> d | _ \<Rightarrow> []) ''is_absolute'' (PBool False) = PBool (is_absolute a)"
  "dict_get (case to_dict a of PDict d \<Rightarrow> d | _ \<Rightarrow> []) ''fallback_action_sequence'' PNone
     = opt_list (fallback_action_sequence a)"
  by (simp_all add: to_dict_def dict_get_def)

lemma new_action_round_trip:
  assumes "new_action c ps cid m nm ia fb = Inr a"
  shows "from_dict (to_dict a) = Inr a"
proof -
  obtain d where d: "to_dict a = PDict d" by (simp add: to_dict_def)
  note l = to_dict_lookups [of a, unfolded d pyval.case]
  have fields: "type a = TYPE_of c" "condition_id a = init_condition_id cid"
    "next_action_index_if_condition_met a = safe_int_or_none m"
    "next_action_index_if_condition_not_met a = safe_int_or_none nm"
    "fallback_action_sequence a = init_fallback fb"
    using new_action_fields [OF assms] by simp_all
  have t: "is_str (PStr (type a))" "py_bool (PStr (type a))" "py_str (PStr (type a)) = TYPE_of c"
    using TYPE_of_ok [of c] by (simp_all add: fields py_str_def)
  have c1: "opt_str (init_condition_id (opt_str (condition_id a))) = opt_str (condition_id a)"
    by (simp add: fields init_condition_id_idem)
  have c2: "opt_int (safe_int_or_none (opt_int (next_action_index_if_condition_met a)))
      = opt_int (next_action_index_if_condition_met a)"
    "opt_int (safe_int_or_none (opt_int (next_action_index_if_condition_not_met a)))
      = opt_int (next_action_index_if_condition_not_met a)"
    by (simp_all add: fields safe_int_or_none_idem)
  have c3: "(case opt_list (fallback_action_sequence a) of
      PList xs \<Rightarrow> if filter is_dict xs \<noteq> [] then PList (filter is_dict xs) else PNone
    | _ \<Rightarrow> PNone) = opt_list (fallback_action_sequence a)"
    unfolding fields by (rule from_dict_fallback_idem)
  show ?thesis
    unfolding d from_dict_def pyval.case Let_def l
    by (simp only: t c1 c2 c3 action_class_map_TYPE new_action_again [OF assms]
        is_dict.simps simp_thms if_True if_False option.case sum.case)
qed

lemma from_dict_is_new_action:
  "from_dict data = Inr a \<Longrightarrow> \<exists>c ps cid m nm ia fb. new_action c ps cid m nm ia fb = Inr a"
  by (cases data;
      auto simp: from_dict_def Let_def Action_new_def split: if_splits option.splits sum.splits;
      blast)

text \<open>
  Claim C4. Every action that \<^verbatim>\<open>from_dict\<close> or a subclass constructor returns (these are
  the actions of the known variants: the base class cannot be instantiated) is
  reproduced by \<^verbatim>\<open>from_dict(a.to_dict())\<close>: same class and type, same params, same
  condition id, jump indices, \<^verbatim>\<open>is_absolute\<close> flag and fallback sequence, and the same
  derived attributes and validity. Hence a second round trip gives the same dictionary
  and the same action again.
\<close>

theorem round_trip:
  "(\<forall>a. from_dict data = Inr a \<longrightarrow> from_dict (to_dict a) = Inr a)
   \<and> (\<forall>a. new_action c ps cid m nm ia fb = Inr a \<longrightarrow> from_dict (to_dict a) = Inr a)
   \<and> (\<forall>a b. (from_dict data = Inr a \<or> new_action c ps cid m nm ia fb = Inr a)
          \<and> from_dict (to_dict a) = Inr b
        \<longrightarrow> b = a \<and> to_dict b = to_dict a \<and> from_dict (to_dict b) = Inr b)"
proof -
  have 1: "from_dict (to_dict a) = Inr a" if "from_dict data = Inr a" for a
    using from_dict_is_new_action [OF that] new_action_round_trip by blast
  have 2: "from_dict (to_dict a) = Inr a" if "new_action c ps cid m nm ia fb = Inr a" for a
    using that by (rule new_action_round_trip)
  have 3: "b = a \<and> to_dict b = to_dict a \<and> from_dict (to_dict b) = Inr b"
    if "(from_dict data = Inr a \<or> new_action c ps cid m nm ia fb = Inr a)
          \<and> from_dict (to_dict a) = Inr b" for a b
  proof -
    from that 1 2 have "from_dict (to_dict a) = Inr a" by blast
    with that have "b = a" by simp
    with \<open>from_dict (to_dict a) = Inr a\<close> show ?thesis by simp
  qed
  from 1 2 3 show ?thesis by blast
qed

theorem round_trip_witness:
  "(case from_dict (PDict [(''type'', PStr ''click''),
        (''params'', PDict [(''x'', PStr ''100''), (''y'', PInt 200), (''button'', PStr ''LEFT''),
                            (''click_type'', PStr ''triple''), (''delay_before'', PInt (- 1))]),
        (''condition_id'', PStr '' c1 ''),
        (''next_action_index_if_condition_met'', PStr ''2''),
        (''is_absolute'', PInt 1),
        (''fallback_action_sequence'', PList [PDict [(''type'', PStr ''wait'')], PInt 3, PDict []])]) of
      Inl e \<Rightarrow> False
    | Inr a \<Rightarrow>
        to_dict a = PDict [(''type'', PStr ''click''),
          (''params'', PDict [(''x'', PStr ''100''), (''y'', PInt 200), (''button'', PStr ''LEFT''),
                              (''click_type'', PStr ''single''), (''delay_before'', PFloat float_zero),
                              (''hold_duration'', PFloat float_zero)]),
          (''condition_id'', PStr ''c1''),
          (''next_action_index_if_condition_met'', PInt 2),
          (''next_action_index_if_condition_not_met'', PNone),
          (''is_absolute'', PBool True),
          (''fallback_action_sequence'', PList [PDict [(''type'', PStr ''wait'')]])]
        \<and> is_valid a
        \<and> (case from_dict (to_dict a) of Inl e \<Rightarrow> False | Inr b \<Rightarrow> to_dict b = to_dict a))"
proof -
  let ?data = "PDict [(''type'', PStr ''click''),
        (''params'', PDict [(''x'', PStr ''100''), (''y'', PInt 200), (''button'', PStr ''LEFT''),
                            (''click_type'', PStr ''triple''), (''delay_before'', PInt (- 1))]),
        (''condition_id'', PStr '' c1 ''),
        (''next_action_index_if_condition_met'', PStr ''2''),
        (''is_absolute'', PInt 1),
        (''fallback_action_sequence'', PList [PDict [(''type'', PStr ''wait'')], PInt 3, PDict []])]"
  have "\<not> isl (from_dict ?data)" by code_simp
  then obtain x where x: "from_dict ?data = Inr x" using isr_obtain by blast
  have e: "(case from_dict ?data of Inl e \<Rightarrow> False
     | Inr a \<Rightarrow> to_dict a = PDict [(''type'', PStr ''click''),
          (''params'', PDict [(''x'', PStr ''100''), (''y'', PInt 200), (''button'', PStr ''LEFT''),
                              (''click_type'', PStr ''single''), (''delay_before'', PFloat float_zero),
                              (''hold_duration'', PFloat float_zero)]),
          (''condition_id'', PStr ''c1''),
          (''next_action_index_if_condition_met'', PInt 2),
          (''next_action_index_if_condition_not_met'', PNone),
          (''is_absolute'', PBool True),
          (''fallback_action_sequence'', PList [PDict [(''type'', PStr ''wait'')]])]
        \<and> is_valid a)"
    by code_simp
  have r: "from_dict (to_dict x) = Inr x"
    by (rule round_trip [of ?data ClickAction PNone PNone PNone PNone PNone PNone,
          THEN conjunct1, rule_format, OF x])
  have g: "(case from_dict (to_dict x) of Inl e \<Rightarrow> False | Inr b \<Rightarrow> to_dict b = to_dict x)"
    by (simp only: r sum.case)
  note ex = e [unfolded x sum.case]
  show ?thesis
    unfolding x sum.case
    by (intro conjI) (rule ex [THEN conjunct1], rule ex [THEN conjunct2], rule g)
qed

lemma init_condition_id_nonempty: "init_condition_id v = Some s \<Longrightarrow> s \<noteq> []"
  by (cases v) (auto simp: init_condition_id_def split: if_splits)

lemma new_action_condition_id:
  "new_action c ps cidv m nm ia fb = Inr a \<Longrightarrow> condition_id a = init_condition_id cidv"
  and new_action_cache:
  "new_action c ps cidv m nm ia fb = Inr a \<Longrightarrow> condition_instance_cache a = None"
  using new_action_fields [of c ps cidv m nm ia fb a] by blast+

lemma poll_set: "is_set e \<Longrightarrow> poll e = (True, e)"
  by (simp add: poll_def)

lemma execute_condition_not_met:
  "condition_result env a mgr ctx = (Inr False, a') \<Longrightarrow>
   execute env a ev mgr ctx = \<lparr>outcome = Inr False, self_after = a', event_after = ev, effects = []\<rparr>"
  by (simp add: execute_def)

lemma execute_stop_event_set:
  "condition_result env a mgr ctx = (Inr True, a') \<Longrightarrow> is_set e \<Longrightarrow>
   execute env a (Some e) mgr ctx
     = \<lparr>outcome = Inr True, self_after = a', event_after = Some e, effects = []\<rparr>"
  by (simp add: execute_def event_is_set_def poll_set)

lemma condition_result_resolved:
  "condition_id a = Some cid \<Longrightarrow> cid \<noteq> [] \<Longrightarrow> mgr_truthy m \<Longrightarrow>
   get_shared_condition_by_id m = Some lookup \<Longrightarrow> resolve_condition a lookup cid = Inr (r, a') \<Longrightarrow>
   condition_result env a (Some m) ctx = (check_resolved env r ctx, a')"
  by (simp add: condition_result_def)

text \<open>
  Claim C3. For an action whose \<^verbatim>\<open>condition_id\<close> is set (the constructor stores only
  strings that are not empty): when the condition manager is None, is false or has no
  \<^verbatim>\<open>get_shared_condition_by_id\<close>, when the lookup returns None, and when the
  \<^verbatim>\<open>check()\<close> of the resolved condition raises an Exception, \<^verbatim>\<open>execute\<close> returns False
  and has no effect at all: no call of the bridge, no sleep.
\<close>

theorem fail_closed_condition:
  "(\<forall>c ps cidv m nm ia fb. new_action c ps cidv m nm ia fb = Inr a \<and> condition_id a = Some cid
       \<longrightarrow> cid \<noteq> [] \<and> cache_hit a cid = Inr None)
   \<and> (condition_id a = Some cid \<and> cid \<noteq> [] \<longrightarrow>
        ((condition_manager = None
           \<or> (\<exists>m. condition_manager = Some m
                 \<and> (\<not> mgr_truthy m \<or> get_shared_condition_by_id m = None)))
          \<longrightarrow> execute env a ev condition_manager context
               = \<lparr>outcome = Inr False, self_after = a, event_after = ev, effects = []\<rparr>)
        \<and> (\<forall>m lookup. condition_manager = Some m \<and> mgr_truthy m
               \<and> get_shared_condition_by_id m = Some lookup
               \<and> cache_hit a cid = Inr None \<and> lookup cid = Inr None
             \<longrightarrow> execute env a ev condition_manager context
                  = \<lparr>outcome = Inr False, self_after = a\<lparr>condition_instance_cache := None\<rparr>,
                     event_after = ev, effects = []\<rparr>)
        \<and> (\<forall>m lookup c a' e. condition_manager = Some m \<and> mgr_truthy m
               \<and> get_shared_condition_by_id m = Some lookup
               \<and> resolve_condition a lookup cid = Inr (Some c, a')
               \<and> obj_check c context = Inl e \<and> is_Exception e
             \<longrightarrow> execute env a ev condition_manager context
                  = \<lparr>outcome = Inr False, self_after = a', event_after = ev, effects = []\<rparr>))"
proof (intro conjI allI impI)
  fix c ps cidv m nm ia fb
  assume h: "new_action c ps cidv m nm ia fb = Inr a \<and> condition_id a = Some cid"
  then have "init_condition_id cidv = Some cid"
    using new_action_condition_id [of c ps cidv m nm ia fb a] by simp
  then show "cid \<noteq> []" by (rule init_condition_id_nonempty)
  show "cache_hit a cid = Inr None"
    using new_action_cache [OF h [THEN conjunct1]] by (simp add: cache_hit_def)
next
  assume h: "condition_id a = Some cid \<and> cid \<noteq> []"
    and m: "condition_manager = None
           \<or> (\<exists>m. condition_manager = Some m
                 \<and> (\<not> mgr_truthy m \<or> get_shared_condition_by_id m = None))"
  have "condition_result env a condition_manager context = (Inr False, a)"
    using h m by (auto simp: condition_result_def)
  then show "execute env a ev condition_manager context
               = \<lparr>outcome = Inr False, self_after = a, event_after = ev, effects = []\<rparr>"
    by (rule execute_condition_not_met)
next
  fix m lookup
  assume h: "condition_id a = Some cid \<and> cid \<noteq> []"
    and m: "condition_manager = Some m \<and> mgr_truthy m
               \<and> get_shared_condition_by_id m = Some lookup
               \<and> cache_hit a cid = Inr None \<and> lookup cid = Inr None"
  have r: "resolve_condition a lookup cid = Inr (None, a\<lparr>condition_instance_cache := None\<rparr>)"
    using m by (simp add: resolve_condition_def)
  from h have h1: "condition_id a = Some cid" and h2: "cid \<noteq> []" by simp_all
  from m have m1: "mgr_truthy m" and m2: "get_shared_condition_by_id m = Some lookup" by simp_all
  have "condition_result env a (Some m) context
      = (check_resolved env None context, a\<lparr>condition_instance_cache := None\<rparr>)"
    by (rule condition_result_resolved [OF h1 h2 m1 m2 r])
  then have "condition_result env a condition_manager context
      = (Inr False, a\<lparr>condition_instance_cache := None\<rparr>)"
    using m by (simp add: check_resolved_def)
  then show "execute env a ev condition_manager context
                  = \<lparr>outcome = Inr False, self_after = a\<lparr>condition_instance_cache := None\<rparr>,
                     event_after = ev, effects = []\<rparr>"
    by (rule execute_condition_not_met)
next
  fix m lookup c a' e
  assume h: "condition_id a = Some cid \<and> cid \<noteq> []"
    and m: "condition_manager = Some m \<and> mgr_truthy m
               \<and> get_shared_condition_by_id m = Some lookup
               \<and> resolve_condition a lookup cid = Inr (Some c, a')
               \<and> obj_check c context = Inl e \<and> is_Exception e"
  from h have h1: "condition_id a = Some cid" and h2: "cid \<noteq> []" by simp_all
  from m have m1: "mgr_truthy m" and m2: "get_shared_condition_by_id m = Some lookup"
    and m3: "resolve_condition a lookup cid = Inr (Some c, a')" by simp_all
  have "condition_result env a (Some m) context = (check_resolved env (Some c) context, a')"
    by (rule condition_result_resolved [OF h1 h2 m1 m2 m3])
  moreover have "check_resolved env (Some c) context = Inr False"
    using m by (simp add: check_resolved_def)
  ultimately have "condition_result env a condition_manager context = (Inr False, a')"
    using m by simp
  then show "execute env a ev condition_manager context
                  = \<lparr>outcome = Inr False, self_after = a', event_after = ev, effects = []\<rparr>"
    by (rule execute_condition_not_met)
qed

theorem fail_closed_condition_witness:
  "(case new_action ClickAction (PDict [(''x'', PInt 100), (''y'', PInt 200)]) (PStr ''c1'')
          PNone PNone (PBool False) PNone of
      Inl e \<Rightarrow> False
    | Inr a \<Rightarrow>
        outcome (execute \<lparr>BridgeImported = True, ConditionClassImported = True, bridge_raises = (\<lambda>n vs. None)\<rparr> a None None []) = Inr False
        \<and> effects (execute \<lparr>BridgeImported = True, ConditionClassImported = True, bridge_raises = (\<lambda>n vs. None)\<rparr> a None None []) = []
        \<and> outcome (execute \<lparr>BridgeImported = True, ConditionClassImported = True, bridge_raises = (\<lambda>n vs. None)\<rparr> a None (Some \<lparr>mgr_truthy = True, get_shared_condition_by_id = Some (\<lambda>i. Inr None)\<rparr>) []) = Inr False
        \<and> effects (execute \<lparr>BridgeImported = True, ConditionClassImported = True, bridge_raises = (\<lambda>n vs. None)\<rparr> a None (Some \<lparr>mgr_truthy = True, get_shared_condition_by_id = Some (\<lambda>i. Inr None)\<rparr>) []) = []
        \<and> outcome (execute \<lparr>BridgeImported = True, ConditionClassImported = True, bridge_raises = (\<lambda>n vs. None)\<rparr> a None (Some \<lparr>mgr_truthy = True, get_shared_condition_by_id = Some (\<lambda>i. Inr (Some \<lparr>obj_truthy = True, obj_is_Condition = True, obj_id = Some (PStr ''c1''), obj_check = (\<lambda>k. Inl RuntimeError)\<rparr>))\<rparr>) []) = Inr False
        \<and> effects (execute \<lparr>BridgeImported = True, ConditionClassImported = True, bridge_raises = (\<lambda>n vs. None)\<rparr> a None (Some \<lparr>mgr_truthy = True, get_shared_condition_by_id = Some (\<lambda>i. Inr (Some \<lparr>obj_truthy = True, obj_is_Condition = True, obj_id = Some (PStr ''c1''), obj_check = (\<lambda>k. Inl RuntimeError)\<rparr>))\<rparr>) []) = [])
   \<and> (case new_action ClickAction (PDict [(''x'', PInt 100), (''y'', PInt 200)]) PNone
          PNone PNone (PBool False) PNone of
        Inl e \<Rightarrow> False
      | Inr a \<Rightarrow>
          outcome (execute \<lparr>BridgeImported = True, ConditionClassImported = True, bridge_raises = (\<lambda>n vs. None)\<rparr> a None None []) = Inr True
          \<and> effects (execute \<lparr>BridgeImported = True, ConditionClassImported = True, bridge_raises = (\<lambda>n vs. None)\<rparr> a None None [])
              = [Called ''simulate_click''
                   [PInt 100, PInt 200, PStr ''left'', PStr ''single'', PFloat float_zero]])"
proof -
  let ?env = "\<lparr>BridgeImported = True, ConditionClassImported = True, bridge_raises = (\<lambda>n vs. None)\<rparr>"
  let ?m1 = "\<lparr>mgr_truthy = True, get_shared_condition_by_id = Some (\<lambda>i. Inr None)\<rparr>"
  let ?c = "\<lparr>obj_truthy = True, obj_is_Condition = True, obj_id = Some (PStr ''c1''), obj_check = (\<lambda>k. Inl RuntimeError)\<rparr>"
  let ?m2 = "\<lparr>mgr_truthy = True, get_shared_condition_by_id = Some (\<lambda>i. Inr (Some \<lparr>obj_truthy = True, obj_is_Condition = True, obj_id = Some (PStr ''c1''), obj_check = (\<lambda>k. Inl RuntimeError)\<rparr>))\<rparr>"
  have "\<not> isl (new_action ClickAction (PDict [(''x'', PInt 100), (''y'', PInt 200)]) (PStr ''c1'')
          PNone PNone (PBool False) PNone)"
    by code_simp
  then obtain x where x: "new_action ClickAction (PDict [(''x'', PInt 100), (''y'', PInt 200)]) (PStr ''c1'')
          PNone PNone (PBool False) PNone = Inr x"
    using isr_obtain by blast
  have "init_condition_id (PStr ''c1'') = Some ''c1''" by code_simp
  then have cid: "condition_id x = Some ''c1''"
    using new_action_condition_id [OF x] by simp
  have ne: "''c1'' \<noteq> []" by simp
  have hit: "cache_hit x ''c1'' = Inr None"
    by (rule fail_closed_condition [where a = x and cid = "''c1''", THEN conjunct1, rule_format,
          OF conjI [OF x cid], THEN conjunct2])
  have t1: "execute ?env x None None []
      = \<lparr>outcome = Inr False, self_after = x, event_after = None, effects = []\<rparr>"
    by (rule fail_closed_condition [where a = x and cid = "''c1''" and condition_manager = None,
          THEN conjunct2, rule_format, OF conjI [OF cid ne], THEN conjunct1, rule_format,
          OF disjI1 [OF refl]])
  have h2: "Some ?m1 = Some ?m1 \<and> mgr_truthy ?m1
      \<and> get_shared_condition_by_id ?m1 = Some (\<lambda>i. Inr None)
      \<and> cache_hit x ''c1'' = Inr None \<and> (\<lambda>i. Inr None) ''c1'' = (Inr None :: error + cond_obj option)"
    using hit by simp
  have t2: "execute ?env x None (Some ?m1) []
      = \<lparr>outcome = Inr False, self_after = x\<lparr>condition_instance_cache := None\<rparr>,
         event_after = None, effects = []\<rparr>"
    by (rule fail_closed_condition [where a = x and cid = "''c1''" and condition_manager = "Some ?m1",
          THEN conjunct2, rule_format, OF conjI [OF cid ne], THEN conjunct2, THEN conjunct1,
          rule_format, OF h2])
  have res: "resolve_condition x (\<lambda>i. Inr (Some ?c)) ''c1''
      = Inr (Some ?c, x\<lparr>condition_instance_cache := Some ?c\<rparr>)"
    using hit by (simp add: resolve_condition_def)
  have h3: "Some ?m2 = Some ?m2 \<and> mgr_truthy ?m2
      \<and> get_shared_condition_by_id ?m2 = Some (\<lambda>i. Inr (Some ?c))
      \<and> resolve_condition x (\<lambda>i. Inr (Some ?c)) ''c1''
          = Inr (Some ?c, x\<lparr>condition_instance_cache := Some ?c\<rparr>)
      \<and> obj_check ?c [] = Inl RuntimeError \<and> is_Exception RuntimeError"
    using res by simp
  have t3: "execute ?env x None (Some ?m2) []
      = \<lparr>outcome = Inr False, self_after = x\<lparr>condition_instance_cache := Some ?c\<rparr>,
         event_after = None, effects = []\<rparr>"
    by (rule fail_closed_condition [where a = x and cid = "''c1''" and condition_manager = "Some ?m2",
          THEN conjunct2, rule_format, OF conjI [OF cid ne], THEN conjunct2, THEN conjunct2,
          rule_format, OF h3])
  have run: "(case new_action ClickAction (PDict [(''x'', PInt 100), (''y'', PInt 200)]) PNone
          PNone PNone (PBool False) PNone of
        Inl e \<Rightarrow> False
      | Inr a \<Rightarrow>
          outcome (execute ?env a None None []) = Inr True
          \<and> effects (execute ?env a None None [])
              = [Called ''simulate_click''
                   [PInt 100, PInt 200, PStr ''left'', PStr ''single'', PFloat float_zero]])"
    by code_simp
  show ?thesis
    unfolding x sum.case t1 t2 t3
    using run by simp
qed

text \<open>
  Claim C8. When the job stop event is already set as \<^verbatim>\<open>execute\<close> is called and the
  condition outcome is True (there is no condition id, or the resolved condition is a
  true Condition object whose check returns True), \<^verbatim>\<open>execute\<close> returns True and has no
  effect: the core logic does not run, so nothing is called on the bridge.
\<close>

theorem stop_event_preempts:
  "is_set e \<longrightarrow>
     (condition_id a = None \<longrightarrow>
        execute env a (Some e) condition_manager context
          = \<lparr>outcome = Inr True, self_after = a, event_after = Some e, effects = []\<rparr>)
     \<and> (\<forall>a'. condition_result env a condition_manager context = (Inr True, a') \<longrightarrow>
          execute env a (Some e) condition_manager context
            = \<lparr>outcome = Inr True, self_after = a', event_after = Some e, effects = []\<rparr>)
     \<and> (\<forall>cid m lookup c a'.
          condition_id a = Some cid \<and> cid \<noteq> [] \<and> condition_manager = Some m \<and> mgr_truthy m
          \<and> get_shared_condition_by_id m = Some lookup
          \<and> resolve_condition a lookup cid = Inr (Some c, a')
          \<and> obj_truthy c \<and> obj_is_Condition c \<and> ConditionClassImported env
          \<and> obj_check c context = Inr True
        \<longrightarrow> execute env a (Some e) condition_manager context
            = \<lparr>outcome = Inr True, self_after = a', event_after = Some e, effects = []\<rparr>)"
proof (intro conjI allI impI)
  assume e: "is_set e" and n: "condition_id a = None"
  have "condition_result env a condition_manager context = (Inr True, a)"
    using n by (simp add: condition_result_def)
  then show "execute env a (Some e) condition_manager context
          = \<lparr>outcome = Inr True, self_after = a, event_after = Some e, effects = []\<rparr>"
    using e by (rule execute_stop_event_set)
next
  fix a'
  assume e: "is_set e" and c: "condition_result env a condition_manager context = (Inr True, a')"
  from c e show "execute env a (Some e) condition_manager context
            = \<lparr>outcome = Inr True, self_after = a', event_after = Some e, effects = []\<rparr>"
    by (rule execute_stop_event_set)
next
  fix cid m lookup c a'
  assume e: "is_set e"
    and h: "condition_id a = Some cid \<and> cid \<noteq> [] \<and> condition_manager = Some m \<and> mgr_truthy m
          \<and> get_shared_condition_by_id m = Some lookup
          \<and> resolve_condition a lookup cid = Inr (Some c, a')
          \<and> obj_truthy c \<and> obj_is_Condition c \<and> ConditionClassImported env
          \<and> obj_check c context = Inr True"
  from h have h1: "condition_id a = Some cid" and h2: "cid \<noteq> []" and m1: "mgr_truthy m"
    and m2: "get_shared_condition_by_id m = Some lookup"
    and m3: "resolve_condition a lookup cid = Inr (Some c, a')" by simp_all
  have "condition_result env a (Some m) context = (check_resolved env (Some c) context, a')"
    by (rule condition_result_resolved [OF h1 h2 m1 m2 m3])
  moreover have "check_resolved env (Some c) context = Inr True"
    using h by (simp add: check_resolved_def)
  ultimately have "condition_result env a condition_manager context = (Inr True, a')"
    using h by simp
  then show "execute env a (Some e) condition_manager context
            = \<lparr>outcome = Inr True, self_after = a', event_after = Some e, effects = []\<rparr>"
    using e by (rule execute_stop_event_set)
qed

theorem stop_event_preempts_witness:
  "(case new_action ClickAction (PDict [(''x'', PInt 100), (''y'', PInt 200)]) PNone
          PNone PNone (PBool False) PNone of
        Inl e \<Rightarrow> False
      | Inr a \<Rightarrow>
          outcome (execute \<lparr>BridgeImported = True, ConditionClassImported = True, bridge_raises = (\<lambda>n vs. None)\<rparr> a (Some \<lparr>is_set = True, set_after = None\<rparr>) None []) = Inr True
          \<and> effects (execute \<lparr>BridgeImported = True, ConditionClassImported = True, bridge_raises = (\<lambda>n vs. None)\<rparr> a (Some \<lparr>is_set = True, set_after = None\<rparr>) None []) = []
          \<and> effects (execute \<lparr>BridgeImported = True, ConditionClassImported = True, bridge_raises = (\<lambda>n vs. None)\<rparr> a (Some \<lparr>is_set = False, set_after = None\<rparr>) None [])
              = [Called ''simulate_click''
                   [PInt 100, PInt 200, PStr ''left'', PStr ''single'', PFloat float_zero]])
   \<and> (case new_action ClickAction (PDict [(''x'', PInt 100), (''y'', PInt 200)]) (PStr ''c1'')
          PNone PNone (PBool False) PNone of
      Inl e \<Rightarrow> False
    | Inr a \<Rightarrow>
        outcome (execute \<lparr>BridgeImported = True, ConditionClassImported = True, bridge_raises = (\<lambda>n vs. None)\<rparr> a (Some \<lparr>is_set = True, set_after = None\<rparr>) (Some \<lparr>mgr_truthy = True, get_shared_condition_by_id = Some (\<lambda>i. Inr (Some \<lparr>obj_truthy = True, obj_is_Condition = True, obj_id = Some (PStr ''c1''), obj_check = (\<lambda>k. Inr True)\<rparr>))\<rparr>) []) = Inr True
        \<and> effects (execute \<lparr>BridgeImported = True, ConditionClassImported = True, bridge_raises = (\<lambda>n vs. None)\<rparr> a (Some \<lparr>is_set = True, set_after = None\<rparr>) (Some \<lparr>mgr_truthy = True, get_shared_condition_by_id = Some (\<lambda>i. Inr (Some \<lparr>obj_truthy = True, obj_is_Condition = True, obj_id = Some (PStr ''c1''), obj_check = (\<lambda>k. Inr True)\<rparr>))\<rparr>) []) = [])"
proof -
  let ?env = "\<lparr>BridgeImported = True, ConditionClassImported = True, bridge_raises = (\<lambda>n vs. None)\<rparr>"
  let ?e = "\<lparr>is_set = True, set_after = None\<rparr>"
  let ?c = "\<lparr>obj_truthy = True, obj_is_Condition = True, obj_id = Some (PStr ''c1''), obj_check = (\<lambda>k. Inr True)\<rparr>"
  let ?m = "\<lparr>mgr_truthy = True, get_shared_condition_by_id = Some (\<lambda>i. Inr (Some \<lparr>obj_truthy = True, obj_is_Condition = True, obj_id = Some (PStr ''c1''), obj_check = (\<lambda>k. Inr True)\<rparr>))\<rparr>"
  have set: "is_set ?e" by simp
  have "\<not> isl (new_action ClickAction (PDict [(''x'', PInt 100), (''y'', PInt 200)]) PNone
          PNone PNone (PBool False) PNone)"
    by code_simp
  then obtain x where x: "new_action ClickAction (PDict [(''x'', PInt 100), (''y'', PInt 200)]) PNone
          PNone PNone (PBool False) PNone = Inr x"
    using isr_obtain by blast
  have "init_condition_id PNone = None" by code_simp
  then have none: "condition_id x = None" using new_action_condition_id [OF x] by simp
  have t1: "execute ?env x (Some ?e) None []
      = \<lparr>outcome = Inr True, self_after = x, event_after = Some ?e, effects = []\<rparr>"
    by (rule stop_event_preempts [where a = x and e = ?e, rule_format, OF set,
          THEN conjunct1, rule_format, OF none])
  have "\<not> isl (new_action ClickAction (PDict [(''x'', PInt 100), (''y'', PInt 200)]) (PStr ''c1'')
          PNone PNone (PBool False) PNone)"
    by code_simp
  then obtain y where y: "new_action ClickAction (PDict [(''x'', PInt 100), (''y'', PInt 200)]) (PStr ''c1'')
          PNone PNone (PBool False) PNone = Inr y"
    using isr_obtain by blast
  have "init_condition_id (PStr ''c1'') = Some ''c1''" by code_simp
  then have cid: "condition_id y = Some ''c1''"
    using new_action_condition_id [OF y] by simp
  have hit: "cache_hit y ''c1'' = Inr None"
    using new_action_cache [OF y] by (simp add: cache_hit_def)
  have res: "resolve_condition y (\<lambda>i. Inr (Some ?c)) ''c1''
      = Inr (Some ?c, y\<lparr>condition_instance_cache := Some ?c\<rparr>)"
    using hit by (simp add: resolve_condition_def)
  have h: "condition_id y = Some ''c1'' \<and> ''c1'' \<noteq> [] \<and> Some ?m = Some ?m \<and> mgr_truthy ?m
          \<and> get_shared_condition_by_id ?m = Some (\<lambda>i. Inr (Some ?c))
          \<and> resolve_condition y (\<lambda>i. Inr (Some ?c)) ''c1''
               = Inr (Some ?c, y\<lparr>condition_instance_cache := Some ?c\<rparr>)
          \<and> obj_truthy ?c \<and> obj_is_Condition ?c \<and> ConditionClassImported ?env
          \<and> obj_check ?c [] = Inr True"
    using cid res by simp
  have t2: "execute ?env y (Some ?e) (Some ?m) []
      = \<lparr>outcome = Inr True, self_after = y\<lparr>condition_instance_cache := Some ?c\<rparr>,
         event_after = Some ?e, effects = []\<rparr>"
    by (rule stop_event_preempts [where a = y and e = ?e and condition_manager = "Some ?m",
          rule_format, OF set, THEN conjunct2, THEN conjunct2, rule_format, OF h])
  have run: "(case new_action ClickAction (PDict [(''x'', PInt 100), (''y'', PInt 200)]) PNone
          PNone PNone (PBool False) PNone of
        Inl e \<Rightarrow> False
      | Inr a \<Rightarrow>
          effects (execute ?env a (Some \<lparr>is_set = False, set_after = None\<rparr>) None [])
              = [Called ''simulate_click''
                   [PInt 100, PInt 200, PStr ''left'', PStr ''single'', PFloat float_zero]])"
    by code_simp
  show ?thesis
    unfolding x y sum.case t1 t2
    using run [unfolded x sum.case] by simp
qed

end
